theory Spec2Isabelle
  imports Main "HOL-Library.Word"
begin

section \<open>Data model of py-lz4framed.c\<close>

type_synonym byte = "8 word"

type_synonym bytes = "byte list"

text \<open>
  The identifiers of \<open>LZ4F_blockSizeID_t\<close> come from the LZ4 header \<open>lz4frame.h\<close>:
  \<open>LZ4F_default = 0\<close> and \<open>LZ4F_max64KB .. LZ4F_max4MB = 4 .. 7\<close>. The extension relies
  on these values itself: \<open>_lz4f_block_size_from_id\<close> subtracts 4 from the identifier to
  index a table of four entries.
\<close>

definition LZ4F_default :: int where "LZ4F_default = 0"

definition LZ4F_max64KB :: int where "LZ4F_max64KB = 4"

definition LZ4F_max256KB :: int where "LZ4F_max256KB = 5"

definition LZ4F_max1MB :: int where "LZ4F_max1MB = 6"

definition LZ4F_max4MB :: int where "LZ4F_max4MB = 7"

datatype LZ4F_blockMode_t = LZ4F_blockLinked | LZ4F_blockIndependent

datatype LZ4F_contentChecksum_t = LZ4F_noContentChecksum | LZ4F_contentChecksumEnabled

datatype LZ4F_blockChecksum_t = LZ4F_noBlockChecksum | LZ4F_blockChecksumEnabled

record LZ4F_frameInfo_t =
  blockSizeID :: int
  blockMode :: LZ4F_blockMode_t
  contentChecksumFlag :: LZ4F_contentChecksum_t
  contentSize :: nat
  blockChecksumFlag :: LZ4F_blockChecksum_t

record LZ4F_preferences_t =
  frameInfo :: LZ4F_frameInfo_t
  compressionLevel :: int
  autoFlush :: nat

text \<open>\<open>static LZ4F_preferences_t prefs_defaults = {{0, 0, 0, 0, 0, 0, 0}, 0, 0, {0}}\<close>\<close>

definition prefs_defaults :: LZ4F_preferences_t where
  "prefs_defaults =
     \<lparr>frameInfo = \<lparr>blockSizeID = 0, blockMode = LZ4F_blockLinked,
                    contentChecksumFlag = LZ4F_noContentChecksum, contentSize = 0,
                    blockChecksumFlag = LZ4F_noBlockChecksum\<rparr>,
      compressionLevel = 0, autoFlush = 0\<rparr>"

text \<open>
  The exceptions the extension raises. \<open>ValueError\<close> carries the message, since the
  extension uses that one Python class for several conditions.
\<close>

datatype value_error =
    input_not_contiguous
  | id_invalid int
  | block_size_id_invalid int
  | level_invalid int
  | buffer_size_invalid int
  | chunk_len_invalid
  | ctx_invalid
  | frame_incomplete

datatype py_error =
    ValueError value_error
  | LZ4FNoDataError
  | LZ4FError nat
  | MemoryError
  | RuntimeWarning

text \<open>
  The error kinds of the interface table, as predicates on the raised exception:
  \<open>EmptyInput\<close> is the dedicated no-data exception, \<open>InvalidOption\<close> a \<open>ValueError\<close>
  about a configuration value, \<open>FrameIncomplete\<close> the \<open>ValueError\<close> "frame incomplete".
\<close>

fun EmptyInput :: "py_error \<Rightarrow> bool" where
  "EmptyInput LZ4FNoDataError = True"
| "EmptyInput _ = False"

fun InvalidOption :: "py_error \<Rightarrow> bool" where
  "InvalidOption (ValueError (id_invalid _)) = True"
| "InvalidOption (ValueError (block_size_id_invalid _)) = True"
| "InvalidOption (ValueError (level_invalid _)) = True"
| "InvalidOption (ValueError (buffer_size_invalid _)) = True"
| "InvalidOption (ValueError chunk_len_invalid) = True"
| "InvalidOption _ = False"

fun FrameIncomplete :: "py_error \<Rightarrow> bool" where
  "FrameIncomplete (ValueError frame_incomplete) = True"
| "FrameIncomplete _ = False"

text \<open>
  What a call does besides returning: the calls into the LZ4 library with their sizes
  (and, for \<open>LZ4F_decompress\<close>, what it returned), the allocations and resizes of the
  output bytes object, and the warning. The functions below return this log with their
  result. Resource management is left out of the model: the per-context lock, the
  interpreter lock, reference counts, and the release of the library handle
  (\<open>_lz4framed_decompress\<close> ends every path, also the failing ones, with
  \<open>LZ4F_freeDecompressionContext\<close>, on a null handle where none was created).
\<close>

datatype event =
    Ev_compressFrameBound nat
  | Ev_compressFrame nat nat
  | Ev_compressBegin nat
  | Ev_compressBound nat
  | Ev_compressUpdate nat nat
  | Ev_createDecompressionContext
  | Ev_getFrameInfo nat
  | Ev_decompress nat nat bool "nat + bytes \<times> nat \<times> nat"
  | Ev_PyBytes_FromStringAndSize nat
  | Ev_PyBytes_Resize nat
  | Ev_PyErr_WarnEx

text \<open>
  The LZ4 frame library and the host (allocator, warning filter) are outside the
  extension; they are the parameters of the model. A library function returns \<open>Inl code\<close>
  where the C function returns a value for which \<open>LZ4F_isError\<close> holds. \<open>LZ4F_decompress\<close>
  takes the context, the capacity \<open>*dstSizePtr\<close>, the \<open>*srcSizePtr\<close> source bytes and
  \<open>stableDst\<close>, and returns the new context, the bytes written, the number of source
  bytes consumed and the hint. \<open>py_mem n\<close> says that the host can provide a bytes object
  of \<open>n\<close> bytes; \<open>warn_raises\<close> that the warning filter turns the warning into an exception
  (\<open>PyErr_WarnEx\<close> returns nonzero).
\<close>

record ('cc, 'dc) lz4f =
  LZ4HC_CLEVEL_MAX :: int
  LZ4F_HEADER_SIZE_MAX :: nat
  LZ4F_compressFrameBound :: "nat \<Rightarrow> LZ4F_preferences_t \<Rightarrow> nat + nat"
  LZ4F_compressFrame :: "nat \<Rightarrow> bytes \<Rightarrow> LZ4F_preferences_t \<Rightarrow> nat + bytes"
  LZ4F_compressBegin :: "'cc \<Rightarrow> nat \<Rightarrow> LZ4F_preferences_t \<Rightarrow> nat + 'cc \<times> bytes"
  LZ4F_compressBound :: "nat \<Rightarrow> LZ4F_preferences_t \<Rightarrow> nat + nat"
  LZ4F_compressUpdate :: "'cc \<Rightarrow> nat \<Rightarrow> bytes \<Rightarrow> nat + 'cc \<times> bytes"
  LZ4F_createDecompressionContext :: "nat + 'dc"
  LZ4F_getFrameInfo :: "'dc \<Rightarrow> bytes \<Rightarrow> nat + 'dc \<times> LZ4F_frameInfo_t \<times> nat \<times> nat"
  LZ4F_decompress :: "'dc \<Rightarrow> nat \<Rightarrow> bytes \<Rightarrow> bool \<Rightarrow> nat + 'dc \<times> bytes \<times> nat \<times> nat"
  py_mem :: "nat \<Rightarrow> bool"
  warn_raises :: bool

definition LZ4_COMPRESSION_MAX :: "('cc, 'dc) lz4f \<Rightarrow> int" where
  "LZ4_COMPRESSION_MAX E = LZ4HC_CLEVEL_MAX E"

text \<open>
  A bytes object of \<open>n\<close> bytes exists only for \<open>n \<le> PY_SSIZE_T_MAX\<close> (the size argument
  is a \<open>Py_ssize_t\<close>, 64 bits wide here) and when the host has the memory.
\<close>

definition PY_SSIZE_T_MAX :: nat where
  "PY_SSIZE_T_MAX = 2 ^ 63 - 1"

definition PyBytes_ok :: "('cc, 'dc) lz4f \<Rightarrow> nat \<Rightarrow> bool" where
  "PyBytes_ok E n \<longleftrightarrow> n \<le> PY_SSIZE_T_MAX \<and> py_mem E n"

text \<open>
  The argument a \<open>y*\<close> format delivers: of the \<open>Py_buffer\<close>, the bytes and whether
  \<open>PyBuffer_IsContiguous\<close> holds. \<open>len\<close> is its \<open>Py_ssize_t\<close> length.
\<close>

record Py_buffer =
  buf :: bytes
  contiguous :: bool

definition len :: "Py_buffer \<Rightarrow> int" where
  "len b = int (length (buf b))"

definition PyBuffer_IsContiguous :: "Py_buffer \<Rightarrow> bool" where
  "PyBuffer_IsContiguous b = contiguous b"

text \<open>
  A context argument is any Python object; \<open>PyCapsule_IsValid\<close> tells the capsules of
  the two context kinds from everything else. A compression context holds the library
  handle and the preferences of the last \<open>compress_begin\<close>.
\<close>

record 'cc lz4f_cctx_t =
  cctx_ctx :: 'cc
  cctx_prefs :: LZ4F_preferences_t

datatype ('cc, 'dc) py_object =
    CompressionCapsule "'cc lz4f_cctx_t"
  | DecompressionCapsule 'dc
  | PyOther

section \<open>Block sizes\<close>

definition valid_lz4f_block_size_id :: "int \<Rightarrow> bool" where
  "valid_lz4f_block_size_id bid \<longleftrightarrow>
     bid = LZ4F_default \<or> bid = LZ4F_max64KB \<or> bid = LZ4F_max256KB \<or>
     bid = LZ4F_max1MB \<or> bid = LZ4F_max4MB"

definition blockSizes :: "nat list" where
  "blockSizes = [64 * 2 ^ 10, 256 * 2 ^ 10, 1 * 2 ^ 20, 4 * 2 ^ 20]"

definition lz4f_block_size_from_id :: "int \<Rightarrow> nat" where
  "lz4f_block_size_from_id bid =
     (if \<not> valid_lz4f_block_size_id bid then 0
      else let bid1 = (if bid = LZ4F_default then LZ4F_max64KB else bid);
               bid2 = bid1 - 4
           in blockSizes ! nat bid2)"

text \<open>
  \<open>get_block_size(id=LZ4F_BLOCKSIZE_DEFAULT)\<close>: the optional argument is \<open>None\<close> when the
  caller leaves it out. The conversion of the result to a Python integer is taken to
  succeed.
\<close>

definition lz4framed_get_block_size :: "int option \<Rightarrow> py_error + nat" where
  "lz4framed_get_block_size arg =
     (let block_id = (case arg of None \<Rightarrow> LZ4F_default | Some i \<Rightarrow> i)
      in if \<not> valid_lz4f_block_size_id block_id
         then Inl (ValueError (id_invalid block_id))
         else Inr (lz4f_block_size_from_id block_id))"

section \<open>One-shot compression\<close>

text \<open>
  \<open>compress(b, block_size_id, block_mode_linked, checksum, level, block_checksum)\<close>.
  The two branches on \<open>NOGIL_COMPRESS_INPUT_SIZE_THRESHOLD\<close> make the same library call,
  with and without the interpreter lock, so the model has one call. The result is the
  output object resized to the length the library returned: the bytes it wrote.
\<close>

definition compress_prefs ::
  "nat \<Rightarrow> int \<Rightarrow> int \<Rightarrow> int \<Rightarrow> int \<Rightarrow> int \<Rightarrow> LZ4F_preferences_t" where
  "compress_prefs n block_id block_mode_linked checksum compression_level block_checksum =
     prefs_defaults
       \<lparr>frameInfo := (frameInfo prefs_defaults)
          \<lparr>contentSize := n,
           blockMode := (if block_mode_linked \<noteq> 0 then LZ4F_blockLinked
                         else LZ4F_blockIndependent),
           blockSizeID := block_id,
           blockChecksumFlag := (if block_checksum \<noteq> 0 then LZ4F_blockChecksumEnabled
                                 else LZ4F_noBlockChecksum),
           contentChecksumFlag := (if checksum \<noteq> 0 then LZ4F_contentChecksumEnabled
                                   else LZ4F_noContentChecksum)\<rparr>,
        compressionLevel := compression_level\<rparr>"

definition lz4framed_compress ::
  "('cc, 'dc) lz4f \<Rightarrow> Py_buffer \<Rightarrow> int \<Rightarrow> int \<Rightarrow> int \<Rightarrow> int \<Rightarrow> int
     \<Rightarrow> (py_error + bytes) \<times> event list" where
  "lz4framed_compress E input block_id block_mode_linked checksum compression_level
       block_checksum =
     (if \<not> PyBuffer_IsContiguous input then (Inl (ValueError input_not_contiguous), [])
      else if len input \<le> 0 then (Inl LZ4FNoDataError, [])
      else if \<not> valid_lz4f_block_size_id block_id
        then (Inl (ValueError (block_size_id_invalid block_id)), [])
      else if compression_level > LZ4_COMPRESSION_MAX E
        then (Inl (ValueError (level_invalid compression_level)), [])
      else
        let n = nat (len input);
            prefs = compress_prefs n block_id block_mode_linked checksum compression_level
                      block_checksum;
            log1 = [Ev_compressFrameBound n]
        in case LZ4F_compressFrameBound E n prefs of
             Inl code \<Rightarrow> (Inl (LZ4FError code), log1)
           | Inr olen \<Rightarrow>
               if \<not> PyBytes_ok E olen then (Inl MemoryError, log1)
               else
                 let log2 = log1 @ [Ev_PyBytes_FromStringAndSize olen,
                                    Ev_compressFrame olen n]
                 in case LZ4F_compressFrame E olen (buf input) prefs of
                      Inl code \<Rightarrow> (Inl (LZ4FError code), log2)
                    | Inr written \<Rightarrow>
                        if \<not> PyBytes_ok E (length written) then (Inl MemoryError, log2)
                        else (Inr written, log2 @ [Ev_PyBytes_Resize (length written)]))"

section \<open>One-shot decompression\<close>

text \<open>
  Sizes (\<open>size_t\<close>) are natural numbers. The C code subtracts the count the library
  reports from the count it passed; the library's contract is that it consumes no more
  than the source holds and writes no more than the capacity, so these subtractions do
  not wrap, and the theorems that depend on it say so (\<open>lz4f_contract\<close>). The doubling
  of \<open>output_len\<close> is written with its wrap-around at 64 bits.

  The output bytes object is modelled whole: \<open>output_obj\<close> is its contents (its length is
  the allocated size) and \<open>output_pos\<close> the offset of the write pointer. A new object's
  bytes are unspecified in C and nothing reads them before they are written; they are 0
  here.
\<close>

definition store :: "bytes \<Rightarrow> nat \<Rightarrow> bytes \<Rightarrow> bytes" where
  "store b pos w = take pos b @ w @ drop (pos + length w) b"

definition PyBytes_FromStringAndSize :: "nat \<Rightarrow> bytes" where
  "PyBytes_FromStringAndSize n = replicate n 0"

definition PyBytes_Resize :: "bytes \<Rightarrow> nat \<Rightarrow> bytes" where
  "PyBytes_Resize b n = take n b @ replicate (n - length b) 0"

record 'dc cursor =
  ctx :: 'dc
  input_pos :: nat
  input_remaining :: nat
  input_read :: nat
  input_size_hint :: nat
  log :: "event list"

record 'dc dstate = "'dc cursor" +
  output_obj :: bytes
  output_pos :: nat
  output_len :: nat
  output_remaining :: nat
  output_written :: nat

datatype 's step = Continue 's | Break 's | Bail py_error "event list"

text \<open>
  One pass through the body of \<open>while (1)\<close> in \<open>_lz4framed_decompress\<close>. The two branches
  on \<open>NOGIL_DECOMPRESS_INPUT_SIZE_THRESHOLD\<close> make the same call.
\<close>

definition decompress_body ::
  "('cc, 'dc) lz4f \<Rightarrow> bytes \<Rightarrow> nat \<Rightarrow> bool \<Rightarrow> 'dc dstate \<Rightarrow> 'dc dstate step" where
  "decompress_body E inp frame_contentSize stableDst s =
     (case LZ4F_decompress E (ctx s) (output_written s)
             (take (input_read s) (drop (input_pos s) inp)) stableDst of
        Inl code \<Rightarrow>
          Bail (LZ4FError code)
            (log s @ [Ev_decompress (output_written s) (input_read s) stableDst (Inl code)])
      | Inr (ctx', w, rd, hint) \<Rightarrow>
          let s1 = s\<lparr>ctx := ctx', input_size_hint := hint, input_read := rd,
                     output_obj := store (output_obj s) (output_pos s) w,
                     output_written := length w,
                     log := log s @ [Ev_decompress (output_written s) (input_read s)
                                       stableDst (Inr (w, rd, hint))]\<rparr>;
              s2 = s1\<lparr>output_pos := output_pos s1 + output_written s1\<rparr>;
              s3 = s2\<lparr>output_remaining := output_remaining s2 - output_written s2,
                      output_written := output_remaining s2 - output_written s2\<rparr>
          in if input_size_hint s3 = 0
             then Break (s3\<lparr>output_len := output_len s3 - output_remaining s3\<rparr>)
             else
               let s4 = s3\<lparr>input_pos := input_pos s3 + input_read s3\<rparr>;
                   s5 = s4\<lparr>input_remaining := input_remaining s4 - input_read s4,
                           input_read := input_remaining s4 - input_read s4\<rparr>
               in if input_remaining s5 \<noteq> 0
                  then
                    if frame_contentSize \<noteq> 0 \<and> warn_raises E
                    then Bail RuntimeWarning (log s5 @ [Ev_PyErr_WarnEx])
                    else
                      let s6 = (if frame_contentSize \<noteq> 0
                                then s5\<lparr>log := log s5 @ [Ev_PyErr_WarnEx]\<rparr> else s5);
                          s7 = s6\<lparr>output_remaining := output_remaining s6 + output_len s6\<rparr>;
                          s8 = s7\<lparr>output_written := output_remaining s7\<rparr>;
                          s9 = s8\<lparr>output_len := (output_len s8 * 2) mod 2 ^ 64\<rparr>
                      in if \<not> PyBytes_ok E (output_len s9) then Bail MemoryError (log s9)
                         else Continue
                                (s9\<lparr>output_obj := PyBytes_Resize (output_obj s9) (output_len s9),
                                    output_pos := output_len s9 - output_remaining s9,
                                    log := log s9 @ [Ev_PyBytes_Resize (output_len s9)]\<rparr>)
                  else Bail (ValueError frame_incomplete) (log s5))"

text \<open>
  The loop: it ends by \<open>break\<close> with the final state or by \<open>goto bail\<close> with the error
  and the log.
\<close>

partial_function (option) decompress_loop ::
  "('cc, 'dc) lz4f \<Rightarrow> bytes \<Rightarrow> nat \<Rightarrow> bool \<Rightarrow> 'dc dstate
     \<Rightarrow> (py_error \<times> event list + 'dc dstate) option" where
  "decompress_loop E inp frame_contentSize stableDst s =
     (case decompress_body E inp frame_contentSize stableDst s of
        Continue s' \<Rightarrow> decompress_loop E inp frame_contentSize stableDst s'
      | Break s' \<Rightarrow> Some (Inr s')
      | Bail e l \<Rightarrow> Some (Inl (e, l)))"

declare decompress_loop.simps [code]

text \<open>\<open>#define MAX(x, y) (x) >= (y) ? (x) : (y)\<close>\<close>

definition MAX_macro :: "nat \<Rightarrow> nat \<Rightarrow> nat" where
  "MAX_macro x y = (if x \<ge> y then x else y)"

text \<open>
  The state on entry to the loop: the header is parsed, the output object allocated.
  \<open>decompress_state0\<close> sets the variables from the context after the header, the input
  offset and count left, the hint and the size of the output object; \<open>begin_len\<close> is
  that size.
\<close>

definition decompress_state0 :: "'dc \<Rightarrow> nat \<Rightarrow> nat \<Rightarrow> nat \<Rightarrow> nat \<Rightarrow> nat \<Rightarrow> 'dc dstate" where
  "decompress_state0 ctx1 n pos remaining hint olen =
     \<lparr>ctx = ctx1, input_pos = pos, input_remaining = remaining, input_read = remaining,
      input_size_hint = hint,
      log = [Ev_createDecompressionContext, Ev_getFrameInfo n,
             Ev_PyBytes_FromStringAndSize olen],
      output_obj = PyBytes_FromStringAndSize olen, output_pos = 0,
      output_len = olen, output_remaining = olen, output_written = olen\<rparr>"

definition begin_len :: "LZ4F_frameInfo_t \<Rightarrow> int \<Rightarrow> nat \<Rightarrow> nat" where
  "begin_len fi buffer_size remaining =
     (if contentSize fi \<noteq> 0 then contentSize fi else MAX_macro (nat buffer_size) remaining)"

definition decompress_begin ::
  "('cc, 'dc) lz4f \<Rightarrow> Py_buffer \<Rightarrow> int
     \<Rightarrow> py_error \<times> event list + nat \<times> bool \<times> 'dc dstate" where
  "decompress_begin E input buffer_size =
     (if \<not> PyBuffer_IsContiguous input then Inl (ValueError input_not_contiguous, [])
      else if len input \<le> 0 then Inl (LZ4FNoDataError, [])
      else if buffer_size \<le> 0 then Inl (ValueError (buffer_size_invalid buffer_size), [])
      else
        let n = nat (len input);
            log1 = [Ev_createDecompressionContext]
        in case LZ4F_createDecompressionContext E of
             Inl code \<Rightarrow> Inl (LZ4FError code, log1)
           | Inr ctx0 \<Rightarrow>
               let log2 = log1 @ [Ev_getFrameInfo n]
               in case LZ4F_getFrameInfo E ctx0 (take n (buf input)) of
                    Inl code \<Rightarrow> Inl (LZ4FError code, log2)
                  | Inr (ctx1, frame_info, rd, hint) \<Rightarrow>
                      let pos = 0 + rd;
                          remaining = n - rd;
                          stableDst = (contentSize frame_info \<noteq> 0);
                          olen = begin_len frame_info buffer_size remaining
                      in if \<not> PyBytes_ok E olen then Inl (MemoryError, log2)
                         else Inr (contentSize frame_info, stableDst,
                                   decompress_state0 ctx1 n pos remaining hint olen))"

text \<open>
  \<open>decompress(b, buffer_size=1024)\<close>. \<open>None\<close> stands for a call that does not return.
\<close>

definition lz4framed_decompress ::
  "('cc, 'dc) lz4f \<Rightarrow> Py_buffer \<Rightarrow> int \<Rightarrow> ((py_error + bytes) \<times> event list) option" where
  "lz4framed_decompress E input buffer_size =
     (case decompress_begin E input buffer_size of
        Inl (e, l) \<Rightarrow> Some (Inl e, l)
      | Inr (frame_contentSize, stableDst, s0) \<Rightarrow>
          (case decompress_loop E (buf input) frame_contentSize stableDst s0 of
             None \<Rightarrow> None
           | Some (Inl (e, l)) \<Rightarrow> Some (Inl e, l)
           | Some (Inr s) \<Rightarrow>
               if \<not> PyBytes_ok E (output_len s) then Some (Inl MemoryError, log s)
               else Some (Inr (PyBytes_Resize (output_obj s) (output_len s)),
                          log s @ [Ev_PyBytes_Resize (output_len s)])))"

section \<open>Streaming compression\<close>

text \<open>
  \<open>compress_begin(ctx, block_size_id, block_mode_linked, checksum, autoflush, level,
  block_checksum)\<close>. The function writes the preferences into the context before it
  allocates, so the context is returned on the failing paths too (\<open>None\<close> where the
  argument is no compression context). \<open>PyCapsule_IsValid\<close> is the case distinction on
  the argument.
\<close>

definition begin_prefs ::
  "LZ4F_preferences_t \<Rightarrow> int \<Rightarrow> int \<Rightarrow> int \<Rightarrow> int \<Rightarrow> int \<Rightarrow> int \<Rightarrow> LZ4F_preferences_t" where
  "begin_prefs p block_id block_mode_linked checksum autoflush compression_level
       block_checksum =
     p\<lparr>frameInfo := (frameInfo p)
          \<lparr>blockMode := (if block_mode_linked \<noteq> 0 then LZ4F_blockLinked
                         else LZ4F_blockIndependent),
           blockSizeID := block_id,
           blockChecksumFlag := (if block_checksum \<noteq> 0 then LZ4F_blockChecksumEnabled
                                 else LZ4F_noBlockChecksum),
           contentChecksumFlag := (if checksum \<noteq> 0 then LZ4F_contentChecksumEnabled
                                   else LZ4F_noContentChecksum)\<rparr>,
       compressionLevel := compression_level,
       autoFlush := (if autoflush \<noteq> 0 then 1 else 0)\<rparr>"

definition lz4framed_compress_begin ::
  "('cc, 'dc) lz4f \<Rightarrow> ('cc, 'dc) py_object \<Rightarrow> int \<Rightarrow> int \<Rightarrow> int \<Rightarrow> int \<Rightarrow> int \<Rightarrow> int
     \<Rightarrow> (py_error + bytes) \<times> 'cc lz4f_cctx_t option \<times> event list" where
  "lz4framed_compress_begin E ctx_capsule block_id block_mode_linked checksum autoflush
       compression_level block_checksum =
     (case ctx_capsule of
        CompressionCapsule cctx \<Rightarrow>
          if \<not> valid_lz4f_block_size_id block_id
          then (Inl (ValueError (block_size_id_invalid block_id)), Some cctx, [])
          else if compression_level > LZ4_COMPRESSION_MAX E
          then (Inl (ValueError (level_invalid compression_level)), Some cctx, [])
          else
            let cctx1 = cctx\<lparr>cctx_prefs := begin_prefs (cctx_prefs cctx) block_id
                               block_mode_linked checksum autoflush compression_level
                               block_checksum\<rparr>;
                olen = LZ4F_HEADER_SIZE_MAX E
            in if \<not> PyBytes_ok E olen then (Inl MemoryError, Some cctx1, [])
               else
                 let log1 = [Ev_PyBytes_FromStringAndSize olen,
                             Ev_compressBegin olen]
                 in case LZ4F_compressBegin E (cctx_ctx cctx1) olen (cctx_prefs cctx1) of
                      Inl code \<Rightarrow> (Inl (LZ4FError code), Some cctx1, log1)
                    | Inr (c', written) \<Rightarrow>
                        let cctx2 = cctx1\<lparr>cctx_ctx := c'\<rparr>
                        in if \<not> PyBytes_ok E (length written)
                           then (Inl MemoryError, Some cctx2, log1)
                           else (Inr written, Some cctx2,
                                 log1 @ [Ev_PyBytes_Resize (length written)])
      | _ \<Rightarrow> (Inl (ValueError ctx_invalid), None, []))"

text \<open>\<open>compress_update(ctx, b)\<close>\<close>

definition lz4framed_compress_update ::
  "('cc, 'dc) lz4f \<Rightarrow> ('cc, 'dc) py_object \<Rightarrow> Py_buffer
     \<Rightarrow> (py_error + bytes) \<times> 'cc lz4f_cctx_t option \<times> event list" where
  "lz4framed_compress_update E ctx_capsule input =
     (case ctx_capsule of
        CompressionCapsule cctx \<Rightarrow>
          if \<not> PyBuffer_IsContiguous input
          then (Inl (ValueError input_not_contiguous), Some cctx, [])
          else if len input \<le> 0 then (Inl LZ4FNoDataError, Some cctx, [])
          else
            let n = nat (len input);
                log1 = [Ev_compressBound n]
            in case LZ4F_compressBound E n (cctx_prefs cctx) of
                 Inl code \<Rightarrow> (Inl (LZ4FError code), Some cctx, log1)
               | Inr olen \<Rightarrow>
                   if \<not> PyBytes_ok E olen then (Inl MemoryError, Some cctx, log1)
                   else
                     let log2 = log1 @ [Ev_PyBytes_FromStringAndSize olen,
                                        Ev_compressUpdate olen n]
                     in case LZ4F_compressUpdate E (cctx_ctx cctx) olen (buf input) of
                          Inl code \<Rightarrow> (Inl (LZ4FError code), Some cctx, log2)
                        | Inr (c', written) \<Rightarrow>
                            let cctx1 = cctx\<lparr>cctx_ctx := c'\<rparr>
                            in if \<not> PyBytes_ok E (length written)
                               then (Inl MemoryError, Some cctx1, log2)
                               else (Inr written, Some cctx1,
                                     log2 @ [Ev_PyBytes_Resize (length written)])
      | _ \<Rightarrow> (Inl (ValueError ctx_invalid), None, []))"

section \<open>Streaming decompression\<close>

text \<open>
  \<open>decompress_update(ctx, b, chunk_len=65536)\<close> returns a list whose items are bytes
  objects and, last, an integer.
\<close>

datatype py_item = PyBytes bytes | PyLong nat

text \<open>
  \<open>chunk_len\<close> is declared \<open>size_t chunk_len = 65536\<close> and filled by the format unit
  \<open>i\<close>, which stores a C \<open>int\<close> through the pointer it is given. On the 64-bit
  little-endian targets this writes the low four bytes of the variable; the high four
  keep their initial value, zero. So an argument \<open>v\<close> leaves the variable at \<open>v\<close> read as
  an unsigned 32-bit number, and an omitted argument leaves it at 65536.
\<close>

definition parse_chunk_len :: "int option \<Rightarrow> nat" where
  "parse_chunk_len arg = (case arg of None \<Rightarrow> 65536 | Some v \<Rightarrow> nat (v mod 2 ^ 32))"

record 'dc ustate = "'dc cursor" +
  py_list :: "py_item list"
  chunk :: bytes
  chunk_pos :: nat
  chunk_remaining :: nat
  chunk_written :: nat

text \<open>
  One pass through the body of \<open>while (input_remaining && input_size_hint)\<close>. The
  library is called with a null options pointer: no stable destination.
\<close>

definition decompress_update_body ::
  "('cc, 'dc) lz4f \<Rightarrow> bytes \<Rightarrow> nat \<Rightarrow> 'dc ustate \<Rightarrow> py_error \<times> event list + 'dc ustate" where
  "decompress_update_body E inp chunk_len s =
     (if chunk_remaining s = 0 \<and> \<not> PyBytes_ok E chunk_len then Inl (MemoryError, log s)
      else
        let s1 = (if chunk_remaining s = 0
                  then s\<lparr>py_list := py_list s @ [PyBytes (chunk s)],
                          chunk := PyBytes_FromStringAndSize chunk_len,
                          chunk_pos := 0,
                          chunk_written := chunk_len,
                          chunk_remaining := chunk_len,
                          log := log s @ [Ev_PyBytes_FromStringAndSize chunk_len]\<rparr>
                  else s)
        in case LZ4F_decompress E (ctx s1) (chunk_written s1)
                  (take (input_read s1) (drop (input_pos s1) inp)) False of
             Inl code \<Rightarrow>
               Inl (LZ4FError code,
                    log s1 @ [Ev_decompress (chunk_written s1) (input_read s1) False (Inl code)])
           | Inr (ctx', w, rd, hint) \<Rightarrow>
               let s2 = s1\<lparr>ctx := ctx', input_size_hint := hint, input_read := rd,
                           chunk := store (chunk s1) (chunk_pos s1) w,
                           chunk_written := length w,
                           log := log s1 @ [Ev_decompress (chunk_written s1) (input_read s1)
                                              False (Inr (w, rd, hint))]\<rparr>;
                   s3 = s2\<lparr>chunk_pos := chunk_pos s2 + chunk_written s2\<rparr>;
                   s4 = s3\<lparr>chunk_remaining := chunk_remaining s3 - chunk_written s3,
                           chunk_written := chunk_remaining s3 - chunk_written s3\<rparr>;
                   s5 = s4\<lparr>input_pos := input_pos s4 + input_read s4\<rparr>
               in Inr (s5\<lparr>input_remaining := input_remaining s5 - input_read s5,
                          input_read := input_remaining s5 - input_read s5\<rparr>))"

partial_function (option) decompress_update_loop ::
  "('cc, 'dc) lz4f \<Rightarrow> bytes \<Rightarrow> nat \<Rightarrow> 'dc ustate
     \<Rightarrow> (py_error \<times> event list + 'dc ustate) option" where
  "decompress_update_loop E inp chunk_len s =
     (if input_remaining s \<noteq> 0 \<and> input_size_hint s \<noteq> 0
      then (case decompress_update_body E inp chunk_len s of
              Inl el \<Rightarrow> Some (Inl el)
            | Inr s' \<Rightarrow> decompress_update_loop E inp chunk_len s')
      else Some (Inr s))"

declare decompress_update_loop.simps [code]

text \<open>
  The state on entry to the loop: the list is empty, the first chunk allocated, and
  \<open>input_size_hint\<close> starts at 1.
\<close>

definition decompress_update_begin :: "'dc \<Rightarrow> nat \<Rightarrow> nat \<Rightarrow> 'dc ustate" where
  "decompress_update_begin dctx n chunk_len =
     \<lparr>ctx = dctx, input_pos = 0, input_remaining = n, input_read = n, input_size_hint = 1,
      log = [Ev_PyBytes_FromStringAndSize chunk_len],
      py_list = [], chunk = PyBytes_FromStringAndSize chunk_len, chunk_pos = 0,
      chunk_remaining = chunk_len, chunk_written = chunk_len\<rparr>"

text \<open>
  What follows the loop: the last chunk is resized to what it holds and appended if it
  holds anything, then the hint is appended.
\<close>

definition decompress_update_end ::
  "('cc, 'dc) lz4f \<Rightarrow> nat \<Rightarrow> 'dc ustate \<Rightarrow> (py_error + py_item list \<times> 'dc) \<times> event list" where
  "decompress_update_end E chunk_len s =
     (if chunk_remaining s < chunk_len
      then
        if \<not> PyBytes_ok E (chunk_len - chunk_remaining s) then (Inl MemoryError, log s)
        else (Inr (py_list s
                    @ [PyBytes (PyBytes_Resize (chunk s) (chunk_len - chunk_remaining s))]
                    @ [PyLong (input_size_hint s)], ctx s),
              log s @ [Ev_PyBytes_Resize (chunk_len - chunk_remaining s)])
      else (Inr (py_list s @ [PyLong (input_size_hint s)], ctx s), log s))"

definition lz4framed_decompress_update ::
  "('cc, 'dc) lz4f \<Rightarrow> ('cc, 'dc) py_object \<Rightarrow> Py_buffer \<Rightarrow> int option
     \<Rightarrow> ((py_error + py_item list \<times> 'dc) \<times> event list) option" where
  "lz4framed_decompress_update E dctx_capsule input chunk_len_arg =
     (let chunk_len = parse_chunk_len chunk_len_arg
      in case dctx_capsule of
           DecompressionCapsule dctx \<Rightarrow>
             if \<not> PyBuffer_IsContiguous input
             then Some (Inl (ValueError input_not_contiguous), [])
             else if len input \<le> 0 then Some (Inl LZ4FNoDataError, [])
             else if chunk_len \<le> 0 then Some (Inl (ValueError chunk_len_invalid), [])
             else if \<not> PyBytes_ok E chunk_len then Some (Inl MemoryError, [])
             else
               (case decompress_update_loop E (buf input) chunk_len
                       (decompress_update_begin dctx (nat (len input)) chunk_len) of
                  None \<Rightarrow> None
                | Some (Inl (e, l)) \<Rightarrow> Some (Inl e, l)
                | Some (Inr s) \<Rightarrow> Some (decompress_update_end E chunk_len s))
         | _ \<Rightarrow> Some (Inl (ValueError ctx_invalid), []))"

section \<open>A small codec for the examples\<close>

text \<open>
  The examples below need a library to run against. This one is a run-length codec: a
  frame is one header byte (the declared content size, 0 for unknown), then pairs of a
  nonzero count and a value, then a zero byte as end mark. The decoder stops, with hint
  1, when the next run does not fit the capacity or when the source ends before the end
  mark; it returns hint 0 at the end mark.
\<close>

fun rle_decode :: "nat \<Rightarrow> bytes \<Rightarrow> bytes \<times> nat \<times> nat" where
  "rle_decode cap [] = ([], 0, 1)"
| "rle_decode cap [c] = (if c = 0 then ([], 1, 0) else ([], 1, 1))"
| "rle_decode cap (c # v # rest) =
     (if c = 0 then ([], 1, 0)
      else if cap < unat c then ([], 0, 1)
      else (case rle_decode (cap - unat c) rest of
              (w, k, h) \<Rightarrow> (replicate (unat c) v @ w, k + 2, h)))"

definition rle_encode :: "nat \<Rightarrow> bytes \<Rightarrow> bytes" where
  "rle_encode n src = [of_nat n] @ concat (map (\<lambda>b. [1, b]) src) @ [0]"

definition rle_lz4f :: "(unit, unit) lz4f" where
  "rle_lz4f =
     \<lparr>LZ4HC_CLEVEL_MAX = 12,
      LZ4F_HEADER_SIZE_MAX = 15,
      LZ4F_compressFrameBound = (\<lambda>n p. Inr (2 * n + 2)),
      LZ4F_compressFrame = (\<lambda>cap src p.
         if cap < 2 * length src + 2 then Inl 11
         else Inr (rle_encode (contentSize (frameInfo p)) src)),
      LZ4F_compressBegin = (\<lambda>c cap p. Inr (c, [of_nat (contentSize (frameInfo p))])),
      LZ4F_compressBound = (\<lambda>n p. Inr (2 * n + 1)),
      LZ4F_compressUpdate = (\<lambda>c cap src. Inr (c, concat (map (\<lambda>b. [1, b]) src))),
      LZ4F_createDecompressionContext = Inr (),
      LZ4F_getFrameInfo = (\<lambda>c src.
         case src of
           [] \<Rightarrow> Inl 12
         | h # _ \<Rightarrow> Inr (c, \<lparr>blockSizeID = 0, blockMode = LZ4F_blockLinked,
                             contentChecksumFlag = LZ4F_noContentChecksum,
                             contentSize = unat h,
                             blockChecksumFlag = LZ4F_noBlockChecksum\<rparr>, 1, 1)),
      LZ4F_decompress = (\<lambda>c cap src stable. Inr (c, rle_decode cap src)),
      py_mem = (\<lambda>n. True),
      warn_raises = False\<rparr>"


section \<open>Notions for the statements\<close>

text \<open>
  The states a loop passes through: \<open>reaches body s t\<close> holds when iterating the body
  from \<open>s\<close> arrives at \<open>t\<close> with every pass in between ending in \<open>Continue\<close>.
\<close>

inductive reaches :: "('s \<Rightarrow> 's step) \<Rightarrow> 's \<Rightarrow> 's \<Rightarrow> bool" for body :: "'s \<Rightarrow> 's step" where
  reaches_refl: "reaches body s s"
| reaches_step: "reaches body s t \<Longrightarrow> body t = Continue u \<Longrightarrow> reaches body s u"

text \<open>
  The contract of the library that the size arithmetic relies on: a call writes no more
  than the capacity it was given and consumes no more than the source it was given.
\<close>

definition lz4f_contract :: "('cc, 'dc) lz4f \<Rightarrow> bool" where
  "lz4f_contract E \<longleftrightarrow>
     (\<forall>c cap src st c' w rd h.
        LZ4F_decompress E c cap src st = Inr (c', w, rd, h) \<longrightarrow> length w \<le> cap \<and> rd \<le> length src)
   \<and> (\<forall>c src c' fi rd h.
        LZ4F_getFrameInfo E c src = Inr (c', fi, rd, h) \<longrightarrow> rd \<le> length src)"


text \<open>
  What holds of the variables of \<open>_lz4framed_decompress\<close> at the head of its loop.
\<close>

definition decompress_inv :: "bytes \<Rightarrow> 'dc dstate \<Rightarrow> bool" where
  "decompress_inv inp s \<longleftrightarrow>
     length (output_obj s) = output_len s
   \<and> output_pos s + output_remaining s = output_len s
   \<and> output_written s = output_remaining s
   \<and> input_read s = input_remaining s
   \<and> input_pos s + input_remaining s = length inp
   \<and> 0 < output_len s \<and> output_len s \<le> PY_SSIZE_T_MAX"

text \<open>
  The state after a pass that enlarges the output object, and after the pass that leaves
  the loop by \<open>break\<close>, in terms of what the library returned.
\<close>

definition grown :: "nat \<Rightarrow> bool \<Rightarrow> 'dc dstate \<Rightarrow> 'dc \<Rightarrow> bytes \<Rightarrow> nat \<Rightarrow> nat \<Rightarrow> 'dc dstate" where
  "grown cs st s c' w rd h =
     s\<lparr>ctx := c', input_size_hint := h,
       input_pos := input_pos s + rd,
       input_remaining := input_remaining s - rd,
       input_read := input_remaining s - rd,
       output_obj := PyBytes_Resize (store (output_obj s) (output_pos s) w)
                       ((output_len s * 2) mod 2 ^ 64),
       output_pos := (output_len s * 2) mod 2 ^ 64
                       - (output_remaining s - length w + output_len s),
       output_len := (output_len s * 2) mod 2 ^ 64,
       output_remaining := output_remaining s - length w + output_len s,
       output_written := output_remaining s - length w + output_len s,
       log := log s @ [Ev_decompress (output_written s) (input_read s) st (Inr (w, rd, h))]
                @ (if cs \<noteq> 0 then [Ev_PyErr_WarnEx] else [])
                @ [Ev_PyBytes_Resize ((output_len s * 2) mod 2 ^ 64)]\<rparr>"

definition finished :: "'dc dstate \<Rightarrow> 'dc \<Rightarrow> bytes \<Rightarrow> nat \<Rightarrow> bool \<Rightarrow> 'dc dstate" where
  "finished s c' w rd st =
     s\<lparr>ctx := c', input_size_hint := 0, input_read := rd,
       output_obj := store (output_obj s) (output_pos s) w,
       output_pos := output_pos s + length w,
       output_len := output_len s - (output_remaining s - length w),
       output_remaining := output_remaining s - length w,
       output_written := output_remaining s - length w,
       log := log s @ [Ev_decompress (output_written s) (input_read s) st (Inr (w, rd, 0))]\<rparr>"

text \<open>
  Readings of the log: the bytes the library wrote, in order; the number of source
  bytes it consumed; the hints it returned; and the capacities and the source sizes it
  was called with.
\<close>

fun written_of :: "event \<Rightarrow> bytes" where
  "written_of (Ev_decompress cap n st (Inr (w, rd, h))) = w"
| "written_of _ = []"

fun consumed_of :: "event \<Rightarrow> nat" where
  "consumed_of (Ev_decompress cap n st (Inr (w, rd, h))) = rd"
| "consumed_of _ = 0"

fun hint_of :: "event \<Rightarrow> nat list" where
  "hint_of (Ev_decompress cap n st (Inr (w, rd, h))) = [h]"
| "hint_of _ = []"

fun capacity_of :: "event \<Rightarrow> nat list" where
  "capacity_of (Ev_decompress cap n st r) = [cap]"
| "capacity_of _ = []"

fun source_of :: "event \<Rightarrow> nat list" where
  "source_of (Ev_decompress cap n st r) = [n]"
| "source_of _ = []"

definition produced :: "event list \<Rightarrow> bytes" where
  "produced l = concat (map written_of l)"

definition consumed :: "event list \<Rightarrow> nat" where
  "consumed l = sum_list (map consumed_of l)"

definition hints :: "event list \<Rightarrow> nat list" where
  "hints l = concat (map hint_of l)"

definition capacities :: "event list \<Rightarrow> nat list" where
  "capacities l = concat (map capacity_of l)"

definition sources :: "event list \<Rightarrow> nat list" where
  "sources l = concat (map source_of l)"

text \<open>
  The log at the end of the loop of \<open>_lz4framed_decompress\<close>, whichever way it ends, and
  the \<open>stableDst\<close> flags of the library calls in a log.
\<close>

fun exit_log :: "(py_error \<times> event list + 'dc dstate) \<Rightarrow> event list" where
  "exit_log (Inl (e, l)) = l"
| "exit_log (Inr s) = log s"

fun stable_of :: "event \<Rightarrow> bool list" where
  "stable_of (Ev_decompress cap n st r) = [st]"
| "stable_of _ = []"

definition stable_flags :: "event list \<Rightarrow> bool list" where
  "stable_flags l = concat (map stable_of l)"





section \<open>Block size table\<close>

text \<open>
  C10. \<open>get_block_size\<close> returns 65536 for the default identifier and for 64KB, 262144
  for 256KB, 1048576 for 1MB and 4194304 for 4MB, and raises the \<open>InvalidOption\<close>
  \<open>ValueError\<close> for every other identifier.
\<close>

theorem get_block_size_table:
  "lz4framed_get_block_size (Some LZ4F_default) = Inr 65536
   \<and> lz4framed_get_block_size None = Inr 65536
   \<and> lz4framed_get_block_size (Some LZ4F_max64KB) = Inr 65536
   \<and> lz4framed_get_block_size (Some LZ4F_max256KB) = Inr 262144
   \<and> lz4framed_get_block_size (Some LZ4F_max1MB) = Inr 1048576
   \<and> lz4framed_get_block_size (Some LZ4F_max4MB) = Inr 4194304
   \<and> (\<forall>i. i \<notin> {LZ4F_default, LZ4F_max64KB, LZ4F_max256KB, LZ4F_max1MB, LZ4F_max4MB}
        \<longrightarrow> (\<exists>e. lz4framed_get_block_size (Some i) = Inl e \<and> InvalidOption e))"
  by (simp add: lz4framed_get_block_size_def lz4f_block_size_from_id_def
      valid_lz4f_block_size_id_def blockSizes_def LZ4F_default_def LZ4F_max64KB_def
      LZ4F_max256KB_def LZ4F_max1MB_def LZ4F_max4MB_def)

theorem get_block_size_table_witness:
  "(3::int) \<notin> {LZ4F_default, LZ4F_max64KB, LZ4F_max256KB, LZ4F_max1MB, LZ4F_max4MB}
   \<and> (\<exists>e. lz4framed_get_block_size (Some 3) = Inl e \<and> InvalidOption e)"
proof -
  have h: "(3::int) \<notin> {LZ4F_default, LZ4F_max64KB, LZ4F_max256KB, LZ4F_max1MB, LZ4F_max4MB}"
    by (simp add: LZ4F_default_def LZ4F_max64KB_def LZ4F_max256KB_def LZ4F_max1MB_def
        LZ4F_max4MB_def)
  from get_block_size_table
  have "\<forall>i. i \<notin> {LZ4F_default, LZ4F_max64KB, LZ4F_max256KB, LZ4F_max1MB, LZ4F_max4MB}
        \<longrightarrow> (\<exists>e. lz4framed_get_block_size (Some i) = Inl e \<and> InvalidOption e)"
    by (elim conjE)
  with h show ?thesis by blast
qed

section \<open>Input validation\<close>

text \<open>
  C2. On a zero-length input buffer, \<open>compress\<close>, \<open>decompress\<close>, \<open>compress_update\<close>
  and \<open>decompress_update\<close> each raise the no-data exception, which is the \<open>EmptyInput\<close>
  kind and neither of the other kinds, and the log of library calls is empty: nothing of
  the codec ran. The buffer is one the argument parser delivers (contiguous) and the
  context argument is a context of the right kind.
\<close>

theorem empty_input_fails:
  assumes "buf input = []" and "contiguous input"
  shows "lz4framed_compress E input block_id linked checksum level block_checksum
           = (Inl LZ4FNoDataError, [])
         \<and> lz4framed_decompress E input buffer_size = Some (Inl LZ4FNoDataError, [])
         \<and> lz4framed_compress_update E (CompressionCapsule cctx) input
           = (Inl LZ4FNoDataError, Some cctx, [])
         \<and> lz4framed_decompress_update E (DecompressionCapsule dctx) input chunk_len
           = Some (Inl LZ4FNoDataError, [])
         \<and> EmptyInput LZ4FNoDataError
         \<and> \<not> InvalidOption LZ4FNoDataError \<and> \<not> FrameIncomplete LZ4FNoDataError"
  using assms
  by (simp add: lz4framed_compress_def lz4framed_decompress_def decompress_begin_def
      lz4framed_compress_update_def lz4framed_decompress_update_def
      PyBuffer_IsContiguous_def len_def)

theorem empty_input_fails_witness:
  "buf \<lparr>buf = [], contiguous = True\<rparr> = [] \<and> contiguous \<lparr>buf = [], contiguous = True\<rparr>
   \<and> lz4framed_compress rle_lz4f \<lparr>buf = [], contiguous = True\<rparr> 0 1 0 0 0
       = (Inl LZ4FNoDataError, [])
   \<and> lz4framed_decompress rle_lz4f \<lparr>buf = [], contiguous = True\<rparr> 1024
       = Some (Inl LZ4FNoDataError, [])
   \<and> lz4framed_compress_update rle_lz4f
         (CompressionCapsule \<lparr>cctx_ctx = (), cctx_prefs = prefs_defaults\<rparr>)
         \<lparr>buf = [], contiguous = True\<rparr>
       = (Inl LZ4FNoDataError, Some \<lparr>cctx_ctx = (), cctx_prefs = prefs_defaults\<rparr>, [])
   \<and> lz4framed_decompress_update rle_lz4f (DecompressionCapsule ())
         \<lparr>buf = [], contiguous = True\<rparr> None
       = Some (Inl LZ4FNoDataError, [])"
  using empty_input_fails [of "\<lparr>buf = [], contiguous = True\<rparr>" rle_lz4f 0 1 0 0 0 1024
      "\<lparr>cctx_ctx = (), cctx_prefs = prefs_defaults\<rparr>" "()" None]
  by simp

text \<open>
  C3. \<open>compress\<close> on a non-empty input with a valid block size identifier, at the
  level \<open>LZ4F_COMPRESSION_MAX\<close>, passes validation: its first step is the library's
  \<open>LZ4F_compressFrameBound\<close>, and no error it raises is \<open>InvalidOption\<close>. At any level
  above the maximum it fails with an empty log, whatever the other arguments, and on a
  non-empty input the error is \<open>InvalidOption\<close>. The same holds for \<open>compress_begin\<close> on a
  compression context: at the maximum no \<open>InvalidOption\<close> is raised and the library's
  \<open>LZ4F_compressBegin\<close> is reached once the header buffer is allocated; above it
  \<open>InvalidOption\<close> is raised, the context is untouched and the log is empty.
\<close>

theorem compression_level_boundary:
  "(contiguous input \<and> buf input \<noteq> [] \<and> valid_lz4f_block_size_id block_id \<longrightarrow>
      (\<exists>l. snd (lz4framed_compress E input block_id linked checksum
                   (LZ4_COMPRESSION_MAX E) block_checksum)
            = Ev_compressFrameBound (length (buf input)) # l)
      \<and> (\<forall>e. fst (lz4framed_compress E input block_id linked checksum
                      (LZ4_COMPRESSION_MAX E) block_checksum) = Inl e
               \<longrightarrow> \<not> InvalidOption e))
   \<and> (level > LZ4_COMPRESSION_MAX E \<longrightarrow>
        (\<exists>e. lz4framed_compress E input block_id linked checksum level block_checksum
                = (Inl e, [])
              \<and> (contiguous input \<and> buf input \<noteq> [] \<longrightarrow> InvalidOption e)))
   \<and> (valid_lz4f_block_size_id block_id \<longrightarrow>
        (\<forall>e. fst (lz4framed_compress_begin E (CompressionCapsule cctx) block_id linked
                      checksum autoflush (LZ4_COMPRESSION_MAX E) block_checksum) = Inl e
                 \<longrightarrow> \<not> InvalidOption e)
        \<and> (PyBytes_ok E (LZ4F_HEADER_SIZE_MAX E) \<longrightarrow>
             Ev_compressBegin (LZ4F_HEADER_SIZE_MAX E)
               \<in> set (snd (snd (lz4framed_compress_begin E (CompressionCapsule cctx)
                    block_id linked checksum autoflush (LZ4_COMPRESSION_MAX E)
                    block_checksum)))))
   \<and> (level > LZ4_COMPRESSION_MAX E \<longrightarrow>
        (\<exists>e. lz4framed_compress_begin E (CompressionCapsule cctx) block_id linked
                  checksum autoflush level block_checksum
                = (Inl e, Some cctx, [])
              \<and> InvalidOption e))"
proof (intro conjI impI)
  assume a: "contiguous input \<and> buf input \<noteq> [] \<and> valid_lz4f_block_size_id block_id"
  show "\<exists>l. snd (lz4framed_compress E input block_id linked checksum
                   (LZ4_COMPRESSION_MAX E) block_checksum)
            = Ev_compressFrameBound (length (buf input)) # l"
    using a
    by (simp add: lz4framed_compress_def PyBuffer_IsContiguous_def len_def Let_def
        split: sum.split)
  show "\<forall>e. fst (lz4framed_compress E input block_id linked checksum
                      (LZ4_COMPRESSION_MAX E) block_checksum) = Inl e
               \<longrightarrow> \<not> InvalidOption e"
    using a
    by (auto simp add: lz4framed_compress_def PyBuffer_IsContiguous_def len_def Let_def
        split: sum.splits if_splits)
next
  assume v: "valid_lz4f_block_size_id block_id"
  show "\<forall>e. fst (lz4framed_compress_begin E (CompressionCapsule cctx) block_id linked
                      checksum autoflush (LZ4_COMPRESSION_MAX E) block_checksum) = Inl e
                 \<longrightarrow> \<not> InvalidOption e"
    using v
    by (auto simp add: lz4framed_compress_begin_def Let_def
        split: sum.splits if_splits prod.splits)
  show "Ev_compressBegin (LZ4F_HEADER_SIZE_MAX E)
          \<in> set (snd (snd (lz4framed_compress_begin E (CompressionCapsule cctx)
                    block_id linked checksum autoflush (LZ4_COMPRESSION_MAX E)
                    block_checksum)))"
    if "PyBytes_ok E (LZ4F_HEADER_SIZE_MAX E)"
    using v that
    by (auto simp add: lz4framed_compress_begin_def Let_def
        split: sum.splits if_splits prod.splits)
next
  assume g: "level > LZ4_COMPRESSION_MAX E"
  show "\<exists>e. lz4framed_compress E input block_id linked checksum level block_checksum
                = (Inl e, [])
              \<and> (contiguous input \<and> buf input \<noteq> [] \<longrightarrow> InvalidOption e)"
    using g
    by (simp add: lz4framed_compress_def PyBuffer_IsContiguous_def len_def)
  show "\<exists>e. lz4framed_compress_begin E (CompressionCapsule cctx) block_id linked
                  checksum autoflush level block_checksum
                = (Inl e, Some cctx, [])
              \<and> InvalidOption e"
    using g by (simp add: lz4framed_compress_begin_def)
qed

theorem compression_level_boundary_witness:
  "contiguous \<lparr>buf = [7], contiguous = True\<rparr> \<and> buf \<lparr>buf = [7], contiguous = True\<rparr> \<noteq> []
   \<and> valid_lz4f_block_size_id 0 \<and> (13::int) > LZ4_COMPRESSION_MAX rle_lz4f
   \<and> PyBytes_ok rle_lz4f (LZ4F_HEADER_SIZE_MAX rle_lz4f)
   \<and> (\<exists>l. snd (lz4framed_compress rle_lz4f \<lparr>buf = [7], contiguous = True\<rparr> 0 1 0
                  (LZ4_COMPRESSION_MAX rle_lz4f) 0)
            = Ev_compressFrameBound 1 # l)
   \<and> lz4framed_compress rle_lz4f \<lparr>buf = [7], contiguous = True\<rparr> 0 1 0 12 0
       = (Inr [1, 1, 7, 0],
          [Ev_compressFrameBound 1, Ev_PyBytes_FromStringAndSize 4, Ev_compressFrame 4 1,
           Ev_PyBytes_Resize 4])
   \<and> (\<exists>e. lz4framed_compress rle_lz4f \<lparr>buf = [7], contiguous = True\<rparr> 0 1 0 13 0
             = (Inl e, []) \<and> InvalidOption e)
   \<and> Ev_compressBegin 15
        \<in> set (snd (snd (lz4framed_compress_begin rle_lz4f
               (CompressionCapsule \<lparr>cctx_ctx = (), cctx_prefs = prefs_defaults\<rparr>) 0 1 0 0
               (LZ4_COMPRESSION_MAX rle_lz4f) 0)))
   \<and> (\<exists>e. lz4framed_compress_begin rle_lz4f
               (CompressionCapsule \<lparr>cctx_ctx = (), cctx_prefs = prefs_defaults\<rparr>) 0 1 0 0 13 0
             = (Inl e, Some \<lparr>cctx_ctx = (), cctx_prefs = prefs_defaults\<rparr>, [])
           \<and> InvalidOption e)"
proof -
  have c: "contiguous \<lparr>buf = [7], contiguous = True\<rparr>" by simp
  have n: "buf \<lparr>buf = [7], contiguous = True\<rparr> \<noteq> []" by simp
  have v: "valid_lz4f_block_size_id 0"
    by (simp add: valid_lz4f_block_size_id_def LZ4F_default_def)
  have g: "(13::int) > LZ4_COMPRESSION_MAX rle_lz4f"
    by (simp add: rle_lz4f_def LZ4_COMPRESSION_MAX_def)
  have m: "PyBytes_ok rle_lz4f (LZ4F_HEADER_SIZE_MAX rle_lz4f)"
    by (simp add: rle_lz4f_def PyBytes_ok_def PY_SSIZE_T_MAX_def)
  have hdr: "LZ4F_HEADER_SIZE_MAX rle_lz4f = 15" by (simp add: rle_lz4f_def)
  have r: "lz4framed_compress rle_lz4f \<lparr>buf = [7], contiguous = True\<rparr> 0 1 0 12 0
       = (Inr [1, 1, 7, 0],
          [Ev_compressFrameBound 1, Ev_PyBytes_FromStringAndSize 4, Ev_compressFrame 4 1,
           Ev_PyBytes_Resize 4])"
    by (simp add: lz4framed_compress_def PyBuffer_IsContiguous_def len_def v rle_lz4f_def
        LZ4_COMPRESSION_MAX_def PyBytes_ok_def PY_SSIZE_T_MAX_def compress_prefs_def
        prefs_defaults_def rle_encode_def)
  from compression_level_boundary [of "\<lparr>buf = [7], contiguous = True\<rparr>" 0 rle_lz4f 1 0 0 13
      "\<lparr>cctx_ctx = (), cctx_prefs = prefs_defaults\<rparr>" 0] v g m c n r
  show ?thesis by (simp add: hdr)
qed

section \<open>The loop of one-shot decompression\<close>

lemma contract_decompress:
  "lz4f_contract E \<Longrightarrow> LZ4F_decompress E c cap src st = Inr (c', w, rd, h)
     \<Longrightarrow> length w \<le> cap \<and> rd \<le> length src"
  unfolding lz4f_contract_def by blast

lemma contract_getFrameInfo:
  "lz4f_contract E \<Longrightarrow> LZ4F_getFrameInfo E c src = Inr (c', fi, rd, h) \<Longrightarrow> rd \<le> length src"
  unfolding lz4f_contract_def by blast

lemma decompress_begin_Inr:
  assumes "decompress_begin E input buffer_size = Inr (cs, st, s0)"
  shows "\<exists>c0 c1 fi rd h.
           LZ4F_createDecompressionContext E = Inr c0
         \<and> LZ4F_getFrameInfo E c0 (buf input) = Inr (c1, fi, rd, h)
         \<and> contiguous input \<and> buf input \<noteq> [] \<and> 0 < buffer_size
         \<and> cs = contentSize fi \<and> st = (cs \<noteq> 0)
         \<and> PyBytes_ok E (begin_len fi buffer_size (length (buf input) - rd))
         \<and> s0 = decompress_state0 c1 (length (buf input)) rd (length (buf input) - rd) h
                  (begin_len fi buffer_size (length (buf input) - rd))"
proof (cases "LZ4F_createDecompressionContext E")
  case (Inl code)
  with assms show ?thesis
    by (simp add: decompress_begin_def Let_def split: if_splits)
next
  case (Inr c0)
  show ?thesis
  proof (cases "LZ4F_getFrameInfo E c0 (buf input)")
    case (Inl code)
    with assms Inr show ?thesis
      by (simp add: decompress_begin_def Let_def len_def split: if_splits)
  next
    case r: (Inr t)
    obtain c1 fi rd h where t: "t = (c1, fi, rd, h)" by (cases t) auto
    from assms Inr r t show ?thesis
      by (auto simp add: decompress_begin_def Let_def len_def PyBuffer_IsContiguous_def
          split: if_splits)
  qed
qed

lemma decompress_begin_run:
  assumes "contiguous input" and "buf input \<noteq> []" and "0 < buffer_size"
    and "LZ4F_createDecompressionContext E = Inr c0"
    and "LZ4F_getFrameInfo E c0 (buf input) = Inr (c1, fi, rd, h)"
    and "PyBytes_ok E (begin_len fi buffer_size (length (buf input) - rd))"
  shows "decompress_begin E input buffer_size
           = Inr (contentSize fi, contentSize fi \<noteq> 0,
                  decompress_state0 c1 (length (buf input)) rd (length (buf input) - rd) h
                    (begin_len fi buffer_size (length (buf input) - rd)))"
  using assms
  by (simp add: decompress_begin_def Let_def len_def PyBuffer_IsContiguous_def)

lemma begin_len_pos: "0 < buffer_size \<Longrightarrow> 0 < begin_len fi buffer_size r"
  by (simp add: begin_len_def MAX_macro_def)

lemma decompress_begin_inv:
  assumes "lz4f_contract E" and "decompress_begin E input buffer_size = Inr (cs, st, s0)"
  shows "decompress_inv (buf input) s0"
proof -
  from decompress_begin_Inr [OF assms(2)] obtain c0 c1 fi rd h where
    g: "LZ4F_getFrameInfo E c0 (buf input) = Inr (c1, fi, rd, h)"
    and b: "0 < buffer_size"
    and ok: "PyBytes_ok E (begin_len fi buffer_size (length (buf input) - rd))"
    and s0: "s0 = decompress_state0 c1 (length (buf input)) rd (length (buf input) - rd) h
                  (begin_len fi buffer_size (length (buf input) - rd))"
    by blast
  from contract_getFrameInfo [OF assms(1) g] have rd: "rd \<le> length (buf input)" .
  show ?thesis
    unfolding decompress_inv_def using begin_len_pos [OF b] ok rd
    by (simp add: s0 decompress_state0_def PyBytes_FromStringAndSize_def PyBytes_ok_def)
qed

lemma decompress_body_Continue:
  assumes "decompress_body E inp cs st s = Continue s'"
  shows "\<exists>c' w rd h.
           LZ4F_decompress E (ctx s) (output_written s)
             (take (input_read s) (drop (input_pos s) inp)) st = Inr (c', w, rd, h)
         \<and> h \<noteq> 0 \<and> rd < input_remaining s \<and> \<not> (cs \<noteq> 0 \<and> warn_raises E)
         \<and> PyBytes_ok E ((output_len s * 2) mod 2 ^ 64)
         \<and> s' = grown cs st s c' w rd h"
  using assms
  by (auto simp add: decompress_body_def Let_def grown_def
      split: if_splits sum.splits prod.splits)

lemma decompress_body_grow:
  assumes "LZ4F_decompress E (ctx s) (output_written s)
             (take (input_read s) (drop (input_pos s) inp)) st = Inr (c', w, rd, h)"
    and "h \<noteq> 0" and "rd < input_remaining s" and "\<not> (cs \<noteq> 0 \<and> warn_raises E)"
    and "PyBytes_ok E ((output_len s * 2) mod 2 ^ 64)"
  shows "decompress_body E inp cs st s = Continue (grown cs st s c' w rd h)"
  using assms
  by (auto simp add: decompress_body_def Let_def grown_def)

lemma double_no_wrap: "n \<le> PY_SSIZE_T_MAX \<Longrightarrow> (n * 2) mod 2 ^ 64 = 2 * n"
  by (simp add: PY_SSIZE_T_MAX_def)

lemma grown_facts:
  assumes inv: "decompress_inv inp s"
    and w: "length w \<le> output_written s" and rd: "rd \<le> input_remaining s"
  shows "output_len (grown cs st s c' w rd h) = 2 * output_len s"
    and "length (output_obj (grown cs st s c' w rd h)) = 2 * length (output_obj s)"
    and "output_pos (grown cs st s c' w rd h) = output_pos s + length w"
    and "take (output_pos (grown cs st s c' w rd h)) (output_obj (grown cs st s c' w rd h))
           = take (output_pos s) (output_obj s) @ w"
    and "output_pos (grown cs st s c' w rd h) + output_remaining (grown cs st s c' w rd h)
           = output_len (grown cs st s c' w rd h)"
    and "output_written (grown cs st s c' w rd h) = output_remaining (grown cs st s c' w rd h)"
    and "input_read (grown cs st s c' w rd h) = input_remaining (grown cs st s c' w rd h)"
    and "input_pos (grown cs st s c' w rd h) + input_remaining (grown cs st s c' w rd h)
           = length inp"
proof -
  from inv have l: "length (output_obj s) = output_len s"
    and p: "output_pos s + output_remaining s = output_len s"
    and ow: "output_written s = output_remaining s"
    and ip: "input_pos s + input_remaining s = length inp"
    and m: "output_len s \<le> PY_SSIZE_T_MAX"
    by (simp_all add: decompress_inv_def)
  note d = double_no_wrap [OF m] double_no_wrap [OF m, simplified]
  show "output_len (grown cs st s c' w rd h) = 2 * output_len s"
    by (simp add: grown_def d)
  have ls: "length (store (output_obj s) (output_pos s) w) = output_len s"
    using l p ow w by (simp add: store_def)
  show "length (output_obj (grown cs st s c' w rd h)) = 2 * length (output_obj s)"
    using ls l by (simp add: grown_def d PyBytes_Resize_def)
  show pos: "output_pos (grown cs st s c' w rd h) = output_pos s + length w"
    using p ow w by (simp add: grown_def d)
  show "take (output_pos (grown cs st s c' w rd h)) (output_obj (grown cs st s c' w rd h))
           = take (output_pos s) (output_obj s) @ w"
    using l p ow w by (simp add: grown_def d PyBytes_Resize_def store_def)
  show "output_pos (grown cs st s c' w rd h) + output_remaining (grown cs st s c' w rd h)
           = output_len (grown cs st s c' w rd h)"
    using p ow w by (simp add: grown_def d)
  show "output_written (grown cs st s c' w rd h) = output_remaining (grown cs st s c' w rd h)"
    by (simp add: grown_def)
  show "input_read (grown cs st s c' w rd h) = input_remaining (grown cs st s c' w rd h)"
    by (simp add: grown_def)
  show "input_pos (grown cs st s c' w rd h) + input_remaining (grown cs st s c' w rd h)
           = length inp"
    using ip rd by (simp add: grown_def)
qed

lemma decompress_body_inv:
  assumes c: "lz4f_contract E" and inv: "decompress_inv inp s"
    and b: "decompress_body E inp cs st s = Continue s'"
  shows "decompress_inv inp s'"
proof -
  from decompress_body_Continue [OF b] obtain c' w rd h where
    call: "LZ4F_decompress E (ctx s) (output_written s)
             (take (input_read s) (drop (input_pos s) inp)) st = Inr (c', w, rd, h)"
    and rd: "rd < input_remaining s"
    and ok: "PyBytes_ok E ((output_len s * 2) mod 2 ^ 64)"
    and s': "s' = grown cs st s c' w rd h"
    by blast
  from contract_decompress [OF c call] have w: "length w \<le> output_written s" by simp
  from rd have rd': "rd \<le> input_remaining s" by simp
  note g = grown_facts [OF inv w rd', of cs st c' h]
  from inv have m: "output_len s \<le> PY_SSIZE_T_MAX" and pos: "0 < output_len s"
    and l: "length (output_obj s) = output_len s"
    by (simp_all add: decompress_inv_def)
  from ok have "2 * output_len s \<le> PY_SSIZE_T_MAX"
    unfolding double_no_wrap [OF m] by (simp add: PyBytes_ok_def)
  with g pos l show ?thesis
    unfolding decompress_inv_def s' by simp
qed

lemma reaches_inv:
  assumes "lz4f_contract E" and "reaches (decompress_body E inp cs st) s0 s"
    and "decompress_inv inp s0"
  shows "decompress_inv inp s"
  using assms(2,3)
  by (induction rule: reaches.induct) (auto intro: decompress_body_inv [OF assms(1)])

lemma reaches_loop:
  assumes "reaches (decompress_body E inp cs st) s0 s"
  shows "decompress_loop E inp cs st s0 = decompress_loop E inp cs st s"
  using assms
proof (induction rule: reaches.induct)
  case (reaches_refl s)
  show ?case by simp
next
  case (reaches_step s t u)
  have "decompress_loop E inp cs st t = decompress_loop E inp cs st u"
    by (subst decompress_loop.simps) (simp add: reaches_step.hyps(2))
  with reaches_step.IH show ?case by simp
qed

lemma decompress_body_error:
  assumes "LZ4F_decompress E (ctx s) (output_written s)
             (take (input_read s) (drop (input_pos s) inp)) st = Inl code"
  shows "decompress_body E inp cs st s
           = Bail (LZ4FError code)
               (log s @ [Ev_decompress (output_written s) (input_read s) st (Inl code)])"
  using assms by (simp add: decompress_body_def)

lemma decompress_body_incomplete:
  assumes "LZ4F_decompress E (ctx s) (output_written s)
             (take (input_read s) (drop (input_pos s) inp)) st = Inr (c', w, rd, h)"
    and "h \<noteq> 0" and "input_remaining s \<le> rd"
  shows "decompress_body E inp cs st s
           = Bail (ValueError frame_incomplete)
               (log s @ [Ev_decompress (output_written s) (input_read s) st
                           (Inr (w, rd, h))])"
  using assms by (simp add: decompress_body_def Let_def)

lemma decompress_body_nomem:
  assumes "LZ4F_decompress E (ctx s) (output_written s)
             (take (input_read s) (drop (input_pos s) inp)) st = Inr (c', w, rd, h)"
    and "h \<noteq> 0" and "rd < input_remaining s" and "\<not> (cs \<noteq> 0 \<and> warn_raises E)"
    and "\<not> PyBytes_ok E ((output_len s * 2) mod 2 ^ 64)"
  shows "decompress_body E inp cs st s
           = Bail MemoryError
               (log s @ [Ev_decompress (output_written s) (input_read s) st
                           (Inr (w, rd, h))]
                  @ (if cs \<noteq> 0 then [Ev_PyErr_WarnEx] else []))"
  using assms by (auto simp add: decompress_body_def Let_def)

lemma decompress_body_break:
  assumes "LZ4F_decompress E (ctx s) (output_written s)
             (take (input_read s) (drop (input_pos s) inp)) st = Inr (c', w, rd, 0)"
  shows "decompress_body E inp cs st s = Break (finished s c' w rd st)"
  using assms by (simp add: decompress_body_def Let_def finished_def)

lemma decompress_loop_returns:
  assumes "0 < output_len s" and "output_len s \<le> PY_SSIZE_T_MAX"
  shows "\<exists>r. decompress_loop E inp cs st s = Some r"
  using assms
proof (induction "PY_SSIZE_T_MAX - output_len s" arbitrary: s rule: less_induct)
  case less
  show ?case
  proof (cases "decompress_body E inp cs st s")
    case (Continue s')
    from decompress_body_Continue [OF Continue] obtain c' w rd h where
      ok: "PyBytes_ok E ((output_len s * 2) mod 2 ^ 64)"
      and s': "s' = grown cs st s c' w rd h"
      by blast
    have l: "output_len s' = 2 * output_len s"
      by (simp add: s' grown_def double_no_wrap [OF less.prems(2), simplified])
    from ok have m: "2 * output_len s \<le> PY_SSIZE_T_MAX"
      unfolding double_no_wrap [OF less.prems(2)] by (simp add: PyBytes_ok_def)
    have "\<exists>r. decompress_loop E inp cs st s' = Some r"
      using less.prems(1) m l by (intro less.hyps) simp_all
    moreover have "decompress_loop E inp cs st s = decompress_loop E inp cs st s'"
      by (subst decompress_loop.simps) (simp add: Continue)
    ultimately show ?thesis by simp
  next
    case (Break s')
    then show ?thesis by (subst decompress_loop.simps) simp
  next
    case (Bail e l)
    then show ?thesis by (subst decompress_loop.simps) simp
  qed
qed

text \<open>
  \<open>decompress\<close> always returns: each pass that does not leave the loop doubles the output
  object, and a bytes object cannot exceed \<open>PY_SSIZE_T_MAX\<close> bytes.
\<close>

lemma lz4framed_decompress_returns:
  "\<exists>r. lz4framed_decompress E input buffer_size = Some r"
proof (cases "decompress_begin E input buffer_size")
  case (Inl el)
  then show ?thesis by (cases el) (simp add: lz4framed_decompress_def)
next
  case (Inr t)
  obtain cs st s0 where t: "t = (cs, st, s0)" by (cases t) auto
  from decompress_begin_Inr [OF Inr [unfolded t]] obtain fi rd where
    b: "0 < buffer_size"
    and ok: "PyBytes_ok E (begin_len fi buffer_size (length (buf input) - rd))"
    and l: "output_len s0 = begin_len fi buffer_size (length (buf input) - rd)"
    by (elim exE conjE) (simp add: decompress_state0_def)
  from ok l have "output_len s0 \<le> PY_SSIZE_T_MAX" by (simp add: PyBytes_ok_def)
  moreover from begin_len_pos [OF b] l have "0 < output_len s0" by simp
  ultimately obtain r where
    r: "decompress_loop E (buf input) cs st s0 = Some r"
    using decompress_loop_returns by blast
  show ?thesis
    using Inr t r by (cases r) (auto simp add: lz4framed_decompress_def)
qed

lemma grown_log:
  "log (grown cs st s c' w rd h)
     = log s @ [Ev_decompress (output_written s) (input_read s) st (Inr (w, rd, h))]
         @ (if cs \<noteq> 0 then [Ev_PyErr_WarnEx] else [])
         @ [Ev_PyBytes_Resize ((output_len s * 2) mod 2 ^ 64)]"
  by (simp add: grown_def)

lemma finished_log:
  "log (finished s c' w rd st)
     = log s @ [Ev_decompress (output_written s) (input_read s) st (Inr (w, rd, 0))]"
  by (simp add: finished_def)

lemma stable_flags_simps [simp]:
  "stable_flags [] = []"
  "stable_flags (e # l) = stable_of e @ stable_flags l"
  "stable_flags (l @ m) = stable_flags l @ stable_flags m"
  by (simp_all add: stable_flags_def)

lemma stable_flags_state0:
  "stable_flags (log (decompress_state0 c n pos rem h olen)) = []"
  by (simp add: decompress_state0_def)

lemma decompress_body_Break:
  assumes "decompress_body E inp cs st s = Break s'"
  shows "\<exists>c' w rd.
           LZ4F_decompress E (ctx s) (output_written s)
             (take (input_read s) (drop (input_pos s) inp)) st = Inr (c', w, rd, 0)
         \<and> s' = finished s c' w rd st"
  using assms
  by (auto simp add: decompress_body_def Let_def finished_def
      split: if_splits sum.splits prod.splits)

lemma decompress_body_Bail:
  assumes "decompress_body E inp cs st s = Bail e l"
  shows "\<exists>res ext.
           l = log s @ Ev_decompress (output_written s) (input_read s) st res # ext
         \<and> (ext = [] \<or> ext = [Ev_PyErr_WarnEx])
         \<and> (e = RuntimeWarning \<longrightarrow> warn_raises E)"
  using assms
  by (auto simp add: decompress_body_def Let_def
      split: if_splits sum.splits prod.splits)

text \<open>
  The log the loop ends with extends the log it started from, beginning with the
  library call of the first pass; so the log \<open>decompress\<close> returns extends the log of
  every state the loop passes through.
\<close>

lemma decompress_loop_log:
  assumes "0 < output_len s" and "output_len s \<le> PY_SSIZE_T_MAX"
  shows "\<exists>r res ext.
           decompress_loop E inp cs st s = Some r
         \<and> exit_log r = log s @ Ev_decompress (output_written s) (input_read s) st res # ext
         \<and> set (stable_flags ext) \<subseteq> {st}
         \<and> (\<not> warn_raises E \<longrightarrow> (\<forall>l. r \<noteq> Inl (RuntimeWarning, l)))"
  using assms
proof (induction "PY_SSIZE_T_MAX - output_len s" arbitrary: s rule: less_induct)
  case less
  show ?case
  proof (cases "decompress_body E inp cs st s")
    case (Continue s')
    from decompress_body_Continue [OF Continue] obtain c' w rd h where
      ok: "PyBytes_ok E ((output_len s * 2) mod 2 ^ 64)"
      and s': "s' = grown cs st s c' w rd h"
      by blast
    have l: "output_len s' = 2 * output_len s"
      by (simp add: s' grown_def double_no_wrap [OF less.prems(2), simplified])
    from ok have m: "2 * output_len s \<le> PY_SSIZE_T_MAX"
      unfolding double_no_wrap [OF less.prems(2)] by (simp add: PyBytes_ok_def)
    have "\<exists>r res ext.
           decompress_loop E inp cs st s' = Some r
         \<and> exit_log r = log s' @ Ev_decompress (output_written s') (input_read s') st res # ext
         \<and> set (stable_flags ext) \<subseteq> {st}
         \<and> (\<not> warn_raises E \<longrightarrow> (\<forall>l. r \<noteq> Inl (RuntimeWarning, l)))"
      using less.prems(1) m l by (intro less.hyps) simp_all
    then obtain r res ext where
      r: "decompress_loop E inp cs st s' = Some r"
      and e: "exit_log r = log s' @ Ev_decompress (output_written s') (input_read s') st res # ext"
      and f: "set (stable_flags ext) \<subseteq> {st}"
      and nw: "\<not> warn_raises E \<longrightarrow> (\<forall>l. r \<noteq> Inl (RuntimeWarning, l))"
      by blast
    have lp: "decompress_loop E inp cs st s = decompress_loop E inp cs st s'"
      by (subst decompress_loop.simps) (simp add: Continue)
    let ?ext = "(if cs \<noteq> 0 then [Ev_PyErr_WarnEx] else [])
         @ [Ev_PyBytes_Resize ((output_len s * 2) mod 2 ^ 64)]
         @ Ev_decompress (output_written s') (input_read s') st res # ext"
    have "exit_log r = log s @ Ev_decompress (output_written s) (input_read s) st
                                  (Inr (w, rd, h)) # ?ext"
      unfolding e unfolding s' grown_log by simp
    moreover have "set (stable_flags ?ext) \<subseteq> {st}" using f by simp
    ultimately show ?thesis using r nw lp
      by (intro exI [of _ r] exI [of _ "Inr (w, rd, h)"] exI [of _ ?ext]) simp
  next
    case (Break s')
    from decompress_body_Break [OF Break] obtain c' w rd where
      s': "s' = finished s c' w rd st" by blast
    have "decompress_loop E inp cs st s = Some (Inr s')"
      by (subst decompress_loop.simps) (simp add: Break)
    moreover have "exit_log (Inr s')
        = log s @ Ev_decompress (output_written s) (input_read s) st (Inr (w, rd, 0)) # []"
      by (simp add: s' finished_log)
    ultimately show ?thesis by (intro exI [of _ "Inr s'"] exI [of _ "[]"] exI) simp
  next
    case (Bail e l)
    from decompress_body_Bail [OF Bail] obtain res ext where
      l: "l = log s @ Ev_decompress (output_written s) (input_read s) st res # ext"
      and x: "ext = [] \<or> ext = [Ev_PyErr_WarnEx]"
      and w: "e = RuntimeWarning \<longrightarrow> warn_raises E"
      by blast
    have "decompress_loop E inp cs st s = Some (Inl (e, l))"
      by (subst decompress_loop.simps) (simp add: Bail)
    moreover from x have "set (stable_flags ext) \<subseteq> {st}" by auto
    ultimately show ?thesis using l w
      by (intro exI [of _ "Inl (e, l)"] exI [of _ res] exI [of _ ext]) auto
  qed
qed

lemma lz4framed_decompress_log:
  assumes c: "lz4f_contract E"
    and b: "decompress_begin E input buffer_size = Inr (cs, st, s0)"
    and r: "reaches (decompress_body E (buf input) cs st) s0 s"
  shows "\<exists>res l r' ext.
           lz4framed_decompress E input buffer_size = Some (res, l)
         \<and> l = log s @ Ev_decompress (output_written s) (input_read s) st r' # ext
         \<and> set (stable_flags ext) \<subseteq> {st}
         \<and> (\<not> warn_raises E \<longrightarrow> res \<noteq> Inl RuntimeWarning)"
proof -
  have inv: "decompress_inv (buf input) s"
    using reaches_inv [OF c r decompress_begin_inv [OF c b]] .
  then have "0 < output_len s" and "output_len s \<le> PY_SSIZE_T_MAX"
    by (simp_all add: decompress_inv_def)
  from decompress_loop_log [OF this, of E "buf input" cs st] obtain x r' ext where
    x: "decompress_loop E (buf input) cs st s = Some x"
    and e: "exit_log x = log s @ Ev_decompress (output_written s) (input_read s) st r' # ext"
    and f: "set (stable_flags ext) \<subseteq> {st}"
    and nw: "\<not> warn_raises E \<longrightarrow> (\<forall>l. x \<noteq> Inl (RuntimeWarning, l))"
    by blast
  from reaches_loop [OF r] x have x0: "decompress_loop E (buf input) cs st s0 = Some x"
    by simp
  show ?thesis
  proof (cases x)
    case (Inl el)
    obtain e' l where el: "el = (e', l)" by (cases el) auto
    from b x0 Inl el have "lz4framed_decompress E input buffer_size = Some (Inl e', l)"
      by (simp add: lz4framed_decompress_def)
    moreover from e Inl el
    have "l = log s @ Ev_decompress (output_written s) (input_read s) st r' # ext" by simp
    moreover from nw Inl el have "\<not> warn_raises E \<longrightarrow> e' \<noteq> RuntimeWarning" by auto
    ultimately show ?thesis using f by blast
  next
    case (Inr t)
    from e Inr
    have lt: "log t = log s @ Ev_decompress (output_written s) (input_read s) st r' # ext"
      by simp
    show ?thesis
    proof (cases "PyBytes_ok E (output_len t)")
      case False
      with b x0 Inr
      have "lz4framed_decompress E input buffer_size = Some (Inl MemoryError, log t)"
        by (simp add: lz4framed_decompress_def)
      with lt f show ?thesis by blast
    next
      case True
      with b x0 Inr
      have "lz4framed_decompress E input buffer_size
              = Some (Inr (PyBytes_Resize (output_obj t) (output_len t)),
                      log t @ [Ev_PyBytes_Resize (output_len t)])"
        by (simp add: lz4framed_decompress_def)
      moreover have "log t @ [Ev_PyBytes_Resize (output_len t)]
          = log s @ Ev_decompress (output_written s) (input_read s) st r'
              # (ext @ [Ev_PyBytes_Resize (output_len t)])"
        using lt by simp
      moreover have "set (stable_flags (ext @ [Ev_PyBytes_Resize (output_len t)])) \<subseteq> {st}"
        using f by simp
      ultimately show ?thesis by blast
    qed
  qed
qed

text \<open>
  The loop ends in a state it reaches, and the bytes in the output object up to the write
  offset are what the library wrote; so are the bytes \<open>decompress\<close> returns.
\<close>

lemma reaches_first:
  assumes "reaches body u t" and "body s = Continue u"
  shows "reaches body s t"
  using assms
proof (induction rule: reaches.induct)
  case (reaches_refl u)
  from reaches.reaches_refl [of body s] reaches_refl show ?case by (rule reaches_step)
next
  case (reaches_step u t v)
  from reaches_step.IH [OF reaches_step.prems] reaches_step.hyps(2)
  show ?case by (rule reaches.reaches_step)
qed

lemma decompress_loop_last:
  assumes "0 < output_len s" and "output_len s \<le> PY_SSIZE_T_MAX"
  shows "\<exists>r t. decompress_loop E inp cs st s = Some r
           \<and> reaches (decompress_body E inp cs st) s t
           \<and> (case r of Inl (e, l) \<Rightarrow> decompress_body E inp cs st t = Bail e l
                       | Inr t' \<Rightarrow> decompress_body E inp cs st t = Break t')"
  using assms
proof (induction "PY_SSIZE_T_MAX - output_len s" arbitrary: s rule: less_induct)
  case less
  show ?case
  proof (cases "decompress_body E inp cs st s")
    case (Continue s')
    from decompress_body_Continue [OF Continue] obtain c' w rd h where
      ok: "PyBytes_ok E ((output_len s * 2) mod 2 ^ 64)"
      and s': "s' = grown cs st s c' w rd h"
      by blast
    have l: "output_len s' = 2 * output_len s"
      by (simp add: s' grown_def double_no_wrap [OF less.prems(2), simplified])
    from ok have m: "2 * output_len s \<le> PY_SSIZE_T_MAX"
      unfolding double_no_wrap [OF less.prems(2)] by (simp add: PyBytes_ok_def)
    have "\<exists>r t. decompress_loop E inp cs st s' = Some r
           \<and> reaches (decompress_body E inp cs st) s' t
           \<and> (case r of Inl (e, l) \<Rightarrow> decompress_body E inp cs st t = Bail e l
                       | Inr t' \<Rightarrow> decompress_body E inp cs st t = Break t')"
      using less.prems(1) m l by (intro less.hyps) simp_all
    then obtain r t where
      r: "decompress_loop E inp cs st s' = Some r"
      and t: "reaches (decompress_body E inp cs st) s' t"
      and e: "case r of Inl (e, l) \<Rightarrow> decompress_body E inp cs st t = Bail e l
                       | Inr t' \<Rightarrow> decompress_body E inp cs st t = Break t'"
      by blast
    have lp: "decompress_loop E inp cs st s = decompress_loop E inp cs st s'"
      by (subst decompress_loop.simps) (simp add: Continue)
    from reaches_first [OF t Continue] r e lp show ?thesis
      by (intro exI [of _ r] exI [of _ t]) simp
  next
    case (Break s')
    have "decompress_loop E inp cs st s = Some (Inr s')"
      by (subst decompress_loop.simps) (simp add: Break)
    with Break reaches_refl [of "decompress_body E inp cs st" s] show ?thesis
      by (intro exI [of _ "Inr s'"] exI [of _ s]) simp
  next
    case (Bail e l)
    have "decompress_loop E inp cs st s = Some (Inl (e, l))"
      by (subst decompress_loop.simps) (simp add: Bail)
    with Bail reaches_refl [of "decompress_body E inp cs st" s] show ?thesis
      by (intro exI [of _ "Inl (e, l)"] exI [of _ s]) simp
  qed
qed

lemma reaches_produced:
  assumes c: "lz4f_contract E" and r: "reaches (decompress_body E inp cs st) s0 s"
    and inv: "decompress_inv inp s0"
    and p: "take (output_pos s0) (output_obj s0) = produced (log s0)"
  shows "take (output_pos s) (output_obj s) = produced (log s)"
  using r inv p
proof (induction rule: reaches.induct)
  case (reaches_refl s)
  then show ?case by simp
next
  case (reaches_step s0 t u)
  have invt: "decompress_inv inp t"
    by (rule reaches_inv [OF c reaches_step.hyps(1) reaches_step.prems(1)])
  from decompress_body_Continue [OF reaches_step.hyps(2)] obtain c' w rd h where
    call: "LZ4F_decompress E (ctx t) (output_written t)
             (take (input_read t) (drop (input_pos t) inp)) st = Inr (c', w, rd, h)"
    and rd: "rd < input_remaining t"
    and u: "u = grown cs st t c' w rd h"
    by blast
  from contract_decompress [OF c call] have w: "length w \<le> output_written t" by simp
  from rd have rd': "rd \<le> input_remaining t" by simp
  note g = grown_facts [OF invt w rd', of cs st c' h]
  show ?case
    unfolding u g(4) grown_log using reaches_step.IH [OF reaches_step.prems]
    by (simp add: produced_def)
qed

lemma lz4framed_decompress_output:
  assumes c: "lz4f_contract E"
    and run: "lz4framed_decompress E input buffer_size = Some (Inr out, l)"
  shows "out = produced l"
proof -
  from run obtain cs st s0 where
    b: "decompress_begin E input buffer_size = Inr (cs, st, s0)"
    by (cases "decompress_begin E input buffer_size")
      (auto simp add: lz4framed_decompress_def)
  have inv0: "decompress_inv (buf input) s0" by (rule decompress_begin_inv [OF c b])
  then have "0 < output_len s0" and "output_len s0 \<le> PY_SSIZE_T_MAX"
    by (simp_all add: decompress_inv_def)
  from decompress_loop_last [OF this, of E "buf input" cs st] obtain x t where
    x: "decompress_loop E (buf input) cs st s0 = Some x"
    and t: "reaches (decompress_body E (buf input) cs st) s0 t"
    and e: "case x of Inl (e, l) \<Rightarrow> decompress_body E (buf input) cs st t = Bail e l
                       | Inr t' \<Rightarrow> decompress_body E (buf input) cs st t = Break t'"
    by blast
  from run b x obtain t' where xt: "x = Inr t'"
    and out: "out = PyBytes_Resize (output_obj t') (output_len t')"
    and l: "l = log t' @ [Ev_PyBytes_Resize (output_len t')]"
    by (cases x) (auto simp add: lz4framed_decompress_def split: if_splits)
  from e xt have brk: "decompress_body E (buf input) cs st t = Break t'" by simp
  from decompress_body_Break [OF brk] obtain c' w rd where
    call: "LZ4F_decompress E (ctx t) (output_written t)
             (take (input_read t) (drop (input_pos t) (buf input))) st = Inr (c', w, rd, 0)"
    and t': "t' = finished t c' w rd st"
    by blast
  from decompress_begin_Inr [OF b] obtain c1 n pos rem h olen where
    "s0 = decompress_state0 c1 n pos rem h olen" by blast
  then have p0: "take (output_pos s0) (output_obj s0) = produced (log s0)"
    by (simp add: decompress_state0_def produced_def)
  have invt: "decompress_inv (buf input) t" by (rule reaches_inv [OF c t inv0])
  have pt: "take (output_pos t) (output_obj t) = produced (log t)"
    by (rule reaches_produced [OF c t inv0 p0])
  from contract_decompress [OF c call] have w: "length w \<le> output_written t" by simp
  from invt have ln: "length (output_obj t) = output_len t"
    and ps: "output_pos t + output_remaining t = output_len t"
    and ow: "output_written t = output_remaining t"
    by (simp_all add: decompress_inv_def)
  have ol: "output_len t' = output_pos t + length w"
    using ps ow w by (simp add: t' finished_def)
  have "PyBytes_Resize (output_obj t') (output_len t') = take (output_pos t) (output_obj t) @ w"
    unfolding ol using ln ps ow w
    by (simp add: t' finished_def PyBytes_Resize_def store_def)
  with out pt have "out = produced (log t) @ w" by simp
  moreover have "produced l = produced (log t) @ w"
    unfolding l t' finished_log by (simp add: produced_def)
  ultimately show ?thesis by simp
qed

section \<open>The small codec keeps the contract\<close>

lemma rle_decode_bounds:
  "length (fst (rle_decode cap src)) \<le> cap \<and> fst (snd (rle_decode cap src)) \<le> length src"
  by (induction cap src rule: rle_decode.induct) (auto split: prod.splits)

lemma rle_contract: "lz4f_contract rle_lz4f"
proof -
  have d: "length w \<le> cap \<and> rd \<le> length src" if "rle_decode cap src = (w, rd, h)"
    for cap src w rd h
    using rle_decode_bounds [of cap src] that by simp
  show ?thesis
    unfolding lz4f_contract_def
    by (auto simp add: rle_lz4f_def dest: d split: list.splits)
qed

lemma rle_sel:
  "LZ4F_createDecompressionContext rle_lz4f = Inr ()"
  "LZ4F_getFrameInfo rle_lz4f c (x # xs)
     = Inr (c, \<lparr>blockSizeID = 0, blockMode = LZ4F_blockLinked,
                 contentChecksumFlag = LZ4F_noContentChecksum, contentSize = unat x,
                 blockChecksumFlag = LZ4F_noBlockChecksum\<rparr>, 1, 1)"
  "LZ4F_decompress rle_lz4f c cap src st = Inr (c, rle_decode cap src)"
  "py_mem rle_lz4f n" "\<not> warn_raises rle_lz4f"
  by (simp_all add: rle_lz4f_def)

lemma replicate_numeral_Cons:
  "replicate (numeral k) x = x # replicate (pred_numeral k) x"
  by (simp add: numeral_eq_Suc)


lemma rle_unknown_run:
  "lz4framed_decompress rle_lz4f \<lparr>buf = [0, 3, 7, 3, 8, 0], contiguous = True\<rparr> 1
     = Some (Inr [7, 7, 7, 8, 8, 8],
             [Ev_createDecompressionContext, Ev_getFrameInfo 6,
              Ev_PyBytes_FromStringAndSize 5,
              Ev_decompress 5 5 False (Inr ([7, 7, 7], 2, 1)), Ev_PyBytes_Resize 10,
              Ev_decompress 7 3 False (Inr ([8, 8, 8], 3, 0)), Ev_PyBytes_Resize 6])"
proof -
  let ?input = "\<lparr>buf = [0, 3, 7, 3, 8, 0], contiguous = True\<rparr>"
  have b: "decompress_begin rle_lz4f ?input 1
             = Inr (0, False, decompress_state0 () 6 1 5 1 5)"
    using decompress_begin_run [of ?input 1 rle_lz4f "()" "()" _ 1 1]
    by (simp add: rle_sel begin_len_def PyBytes_ok_def PY_SSIZE_T_MAX_def MAX_macro_def
        decompress_state0_def PyBytes_FromStringAndSize_def replicate_numeral_Cons)
  show ?thesis
    unfolding lz4framed_decompress_def b
    apply (simp add: decompress_state0_def PyBytes_FromStringAndSize_def)
    apply (subst decompress_loop.simps)
    apply (simp add: decompress_body_def rle_sel Let_def store_def PyBytes_ok_def
        PY_SSIZE_T_MAX_def PyBytes_Resize_def replicate_numeral_Cons)
    apply (subst decompress_loop.simps)
    apply (simp add: decompress_body_def rle_sel Let_def store_def PyBytes_ok_def
        PY_SSIZE_T_MAX_def PyBytes_Resize_def replicate_numeral_Cons)
    done
qed

lemma rle_known_run:
  "lz4framed_decompress rle_lz4f \<lparr>buf = [2, 1, 7, 1, 8, 0], contiguous = True\<rparr> 4
     = Some (Inr [7, 8],
             [Ev_createDecompressionContext, Ev_getFrameInfo 6,
              Ev_PyBytes_FromStringAndSize 2,
              Ev_decompress 2 5 True (Inr ([7, 8], 5, 0)), Ev_PyBytes_Resize 2])"
proof -
  let ?input = "\<lparr>buf = [2, 1, 7, 1, 8, 0], contiguous = True\<rparr>"
  have b: "decompress_begin rle_lz4f ?input 4
             = Inr (2, True, decompress_state0 () 6 1 5 1 2)"
    using decompress_begin_run [of ?input 4 rle_lz4f "()" "()" _ 1 1]
    by (simp add: rle_sel begin_len_def PyBytes_ok_def PY_SSIZE_T_MAX_def
        decompress_state0_def)
  show ?thesis
    unfolding lz4framed_decompress_def b
    apply (simp add: decompress_state0_def PyBytes_FromStringAndSize_def)
    apply (subst decompress_loop.simps)
    apply (simp add: decompress_body_def rle_sel Let_def store_def PyBytes_ok_def
        PY_SSIZE_T_MAX_def PyBytes_Resize_def replicate_numeral_Cons)
    done
qed




section \<open>Truncated frames\<close>

text \<open>
  C7. In one-shot decompression, when a pass of the loop has the library report a nonzero
  hint and all the input that was left is consumed, the call raises the "frame
  incomplete" \<open>ValueError\<close>, the \<open>FrameIncomplete\<close> kind. This is what happens to a
  frame cut short of its end: the library consumes what there is and still asks for more.
  The example runs the small codec on a frame without its end mark.
\<close>

theorem frame_incomplete:
  assumes b: "decompress_begin E input buffer_size = Inr (cs, st, s0)"
    and r: "reaches (decompress_body E (buf input) cs st) s0 s"
    and call: "LZ4F_decompress E (ctx s) (output_written s)
                 (take (input_read s) (drop (input_pos s) (buf input))) st
               = Inr (c', w, rd, h)"
    and h: "h \<noteq> 0" and all: "rd = input_remaining s"
  shows "lz4framed_decompress E input buffer_size
           = Some (Inl (ValueError frame_incomplete),
                   log s @ [Ev_decompress (output_written s) (input_read s) st
                              (Inr (w, rd, h))])
         \<and> FrameIncomplete (ValueError frame_incomplete)"
proof -
  have "decompress_loop E (buf input) cs st s
          = Some (Inl (ValueError frame_incomplete,
                    log s @ [Ev_decompress (output_written s) (input_read s) st
                               (Inr (w, rd, h))]))"
    by (subst decompress_loop.simps)
      (simp add: decompress_body_incomplete [OF call h] all)
  with reaches_loop [OF r] b show ?thesis
    by (simp add: lz4framed_decompress_def)
qed

theorem frame_incomplete_witness:
  "decompress_begin rle_lz4f \<lparr>buf = [2, 1, 7, 1, 8], contiguous = True\<rparr> 4
     = Inr (2, True, decompress_state0 () 5 1 4 1 2)
   \<and> reaches (decompress_body rle_lz4f [2, 1, 7, 1, 8] 2 True)
        (decompress_state0 () 5 1 4 1 2) (decompress_state0 () 5 1 4 1 2)
   \<and> LZ4F_decompress rle_lz4f () 2 [1, 7, 1, 8] True = Inr ((), [7, 8], 4, 1)
   \<and> lz4framed_decompress rle_lz4f \<lparr>buf = [2, 1, 7, 1, 8], contiguous = True\<rparr> 4
     = Some (Inl (ValueError frame_incomplete),
             [Ev_createDecompressionContext, Ev_getFrameInfo 5,
              Ev_PyBytes_FromStringAndSize 2, Ev_decompress 2 4 True (Inr ([7, 8], 4, 1))])"
proof -
  let ?input = "\<lparr>buf = [2, 1, 7, 1, 8], contiguous = True\<rparr>"
  let ?s0 = "decompress_state0 () 5 1 4 1 2 :: unit dstate"
  have b: "decompress_begin rle_lz4f ?input 4 = Inr (2, True, ?s0)"
    using decompress_begin_run [of ?input 4 rle_lz4f "()" "()" _ 1 1]
    by (simp add: rle_sel begin_len_def PyBytes_ok_def PY_SSIZE_T_MAX_def
        decompress_state0_def)
  have r: "reaches (decompress_body rle_lz4f (buf ?input) 2 True) ?s0 ?s0"
    by (rule reaches_refl)
  have call: "LZ4F_decompress rle_lz4f (ctx ?s0) (output_written ?s0)
                 (take (input_read ?s0) (drop (input_pos ?s0) (buf ?input))) True
               = Inr ((), [7, 8], 4, 1)"
    by (simp add: rle_sel decompress_state0_def)
  have h: "(1::nat) \<noteq> 0" by simp
  have all: "4 = input_remaining ?s0" by (simp add: decompress_state0_def)
  from frame_incomplete [OF b r call h all] b r call
  show ?thesis by (simp add: decompress_state0_def)
qed

section \<open>Growth of the output object\<close>



lemma state0_facts:
  "output_len (decompress_state0 c n pos rem h olen) = olen"
  "length (output_obj (decompress_state0 c n pos rem h olen)) = olen"
  "input_remaining (decompress_state0 c n pos rem h olen) = rem"
  "log (decompress_state0 c n pos rem h olen)
     = [Ev_createDecompressionContext, Ev_getFrameInfo n, Ev_PyBytes_FromStringAndSize olen]"
  by (simp_all add: decompress_state0_def PyBytes_FromStringAndSize_def)

text \<open>
  C4. In one-shot decompression of a frame whose header declares no content size,
  \<open>decompress\<close> returns, and the log it returns begins with the allocation of
  \<open>max buffer_size r\<close> bytes, \<open>r\<close> being the input left after the header, and then the
  first call of the library, made with that much room. For every pass
  of the loop in which the library reports a nonzero hint and input is left, the returned
  log holds, right after the library call of that pass, the resize to twice the size and
  then the next call of the library, made with the room of the doubled object; the pass
  keeps the bytes written so far, including its own. If the host cannot provide the
  doubled object, the call ends with that pass, in \<open>MemoryError\<close>. Every pass that goes
  round the loop again is such a doubling. When the call returns bytes, they are the
  bytes the library wrote, pass after pass, in order.
\<close>

theorem unknown_length_buffer:
  assumes c: "lz4f_contract E"
    and b: "decompress_begin E input buffer_size = Inr (cs, st, s0)" and u: "cs = 0"
    and r: "reaches (decompress_body E (buf input) cs st) s0 s"
  shows "\<exists>res l r0 ext0.
         lz4framed_decompress E input buffer_size = Some (res, l)
       \<and> l = [Ev_createDecompressionContext, Ev_getFrameInfo (length (buf input)),
              Ev_PyBytes_FromStringAndSize (max (nat buffer_size) (input_remaining s0)),
              Ev_decompress (max (nat buffer_size) (input_remaining s0)) (input_remaining s0)
                False r0] @ ext0
       \<and> (\<forall>out. res = Inr out \<longrightarrow> out = produced l)
       \<and> (\<exists>c0 c1 fi rd h.
            LZ4F_createDecompressionContext E = Inr c0
          \<and> LZ4F_getFrameInfo E c0 (buf input) = Inr (c1, fi, rd, h)
          \<and> contentSize fi = 0 \<and> input_remaining s0 = length (buf input) - rd)
       \<and> output_len s0 = max (nat buffer_size) (input_remaining s0)
       \<and> length (output_obj s0) = output_len s0
       \<and> log s0 = [Ev_createDecompressionContext, Ev_getFrameInfo (length (buf input)),
                    Ev_PyBytes_FromStringAndSize (max (nat buffer_size) (input_remaining s0))]
       \<and> (\<forall>c' w rd h.
             LZ4F_decompress E (ctx s) (output_written s)
               (take (input_read s) (drop (input_pos s) (buf input))) st
             = Inr (c', w, rd, h)
             \<and> h \<noteq> 0 \<and> rd < input_remaining s \<and> PyBytes_ok E (2 * output_len s)
             \<longrightarrow> (\<exists>r' ext.
                    l = log s @ [Ev_decompress (output_written s) (input_read s) st
                                   (Inr (w, rd, h)),
                                 Ev_PyBytes_Resize (2 * output_len s),
                                 Ev_decompress (output_written s - length w + output_len s)
                                   (input_read s - rd) st r'] @ ext)
               \<and> decompress_body E (buf input) cs st s = Continue (grown cs st s c' w rd h)
               \<and> output_len (grown cs st s c' w rd h) = 2 * output_len s
               \<and> length (output_obj (grown cs st s c' w rd h)) = 2 * length (output_obj s)
               \<and> take (output_pos (grown cs st s c' w rd h))
                     (output_obj (grown cs st s c' w rd h))
                   = take (output_pos s) (output_obj s) @ w
               \<and> log (grown cs st s c' w rd h)
                   = log s @ [Ev_decompress (output_written s) (input_read s) st
                                (Inr (w, rd, h)),
                              Ev_PyBytes_Resize (2 * output_len s)])
       \<and> (\<forall>c' w rd h.
             LZ4F_decompress E (ctx s) (output_written s)
               (take (input_read s) (drop (input_pos s) (buf input))) st
             = Inr (c', w, rd, h)
             \<and> h \<noteq> 0 \<and> rd < input_remaining s \<and> \<not> PyBytes_ok E (2 * output_len s)
             \<longrightarrow> res = Inl MemoryError
               \<and> l = log s @ [Ev_decompress (output_written s) (input_read s) st
                                (Inr (w, rd, h))])
       \<and> (\<forall>s'. decompress_body E (buf input) cs st s = Continue s'
             \<longrightarrow> output_len s' = 2 * output_len s
               \<and> length (output_obj s') = 2 * length (output_obj s)
               \<and> length (output_obj s) = output_len s
               \<and> (\<exists>ext. l = log s' @ ext))"
proof -
  from decompress_begin_Inr [OF b] obtain c0 c1 fi rd0 h0 where
    cr: "LZ4F_createDecompressionContext E = Inr c0"
    and gi: "LZ4F_getFrameInfo E c0 (buf input) = Inr (c1, fi, rd0, h0)"
    and cs: "cs = contentSize fi" and st: "st = (cs \<noteq> 0)"
    and s0: "s0 = decompress_state0 c1 (length (buf input)) rd0 (length (buf input) - rd0) h0
                  (begin_len fi buffer_size (length (buf input) - rd0))"
    by blast
  from cs u have bl: "begin_len fi buffer_size (length (buf input) - rd0)
                      = max (nat buffer_size) (length (buf input) - rd0)"
    by (simp add: begin_len_def MAX_macro_def max_def)
  have f0: "input_remaining s0 = length (buf input) - rd0"
    "output_len s0 = max (nat buffer_size) (length (buf input) - rd0)"
    "length (output_obj s0) = max (nat buffer_size) (length (buf input) - rd0)"
    "log s0 = [Ev_createDecompressionContext, Ev_getFrameInfo (length (buf input)),
               Ev_PyBytes_FromStringAndSize (max (nat buffer_size) (length (buf input) - rd0))]"
    unfolding s0 bl by (simp_all add: state0_facts)
  have f1: "output_written s0 = max (nat buffer_size) (length (buf input) - rd0)"
    "input_read s0 = length (buf input) - rd0"
    unfolding s0 bl by (simp_all add: decompress_state0_def)
  from st u have nst: "st = False" by simp
  have hdr: "\<exists>c0 c1 fi rd h.
            LZ4F_createDecompressionContext E = Inr c0
          \<and> LZ4F_getFrameInfo E c0 (buf input) = Inr (c1, fi, rd, h)
          \<and> contentSize fi = 0 \<and> input_remaining s0 = length (buf input) - rd"
    using cr gi cs u f0(1) by auto
  from lz4framed_decompress_log [OF c b reaches_refl] obtain res l r0 e0 where
    f: "lz4framed_decompress E input buffer_size = Some (res, l)"
    and l0: "l = log s0 @ Ev_decompress (output_written s0) (input_read s0) st r0 # e0"
    by blast
  have first: "l = [Ev_createDecompressionContext, Ev_getFrameInfo (length (buf input)),
              Ev_PyBytes_FromStringAndSize (max (nat buffer_size) (input_remaining s0)),
              Ev_decompress (max (nat buffer_size) (input_remaining s0)) (input_remaining s0)
                False r0] @ e0"
    unfolding l0 f0 f1 nst by simp
  have nomem: "res = Inl MemoryError
               \<and> l = log s @ [Ev_decompress (output_written s) (input_read s) st
                                (Inr (w, rd, h))]"
    if call: "LZ4F_decompress E (ctx s) (output_written s)
               (take (input_read s) (drop (input_pos s) (buf input))) st = Inr (c', w, rd, h)"
      and h: "h \<noteq> 0" and more: "rd < input_remaining s"
      and mem: "\<not> PyBytes_ok E (2 * output_len s)"
    for c' w rd h
  proof -
    have "decompress_inv (buf input) s"
      using reaches_inv [OF c r decompress_begin_inv [OF c b]] .
    then have m: "output_len s \<le> PY_SSIZE_T_MAX" by (simp add: decompress_inv_def)
    have no: "\<not> PyBytes_ok E ((output_len s * 2) mod 2 ^ 64)"
      unfolding double_no_wrap [OF m] by (rule mem)
    have "decompress_body E (buf input) cs st s
            = Bail MemoryError
                (log s @ [Ev_decompress (output_written s) (input_read s) st
                            (Inr (w, rd, h))])"
      using decompress_body_nomem [OF call h more _ no] u by simp
    then have "decompress_loop E (buf input) cs st s
                 = Some (Inl (MemoryError,
                      log s @ [Ev_decompress (output_written s) (input_read s) st
                                 (Inr (w, rd, h))]))"
      by (subst decompress_loop.simps) simp
    with reaches_loop [OF r] b
    have "lz4framed_decompress E input buffer_size
            = Some (Inl MemoryError,
                    log s @ [Ev_decompress (output_written s) (input_read s) st
                               (Inr (w, rd, h))])"
      by (simp add: lz4framed_decompress_def)
    with f show ?thesis by simp
  qed
  have inv: "decompress_inv (buf input) s"
    using reaches_inv [OF c r decompress_begin_inv [OF c b]] .
  then have m: "output_len s \<le> PY_SSIZE_T_MAX" and l: "length (output_obj s) = output_len s"
    and ow: "output_written s = output_remaining s"
    and ir: "input_read s = input_remaining s"
    by (simp_all add: decompress_inv_def)
  note d = double_no_wrap [OF m]
  have grow: "(\<exists>r' ext.
                    l = log s @ [Ev_decompress (output_written s) (input_read s) st
                                   (Inr (w, rd, h)),
                                 Ev_PyBytes_Resize (2 * output_len s),
                                 Ev_decompress (output_written s - length w + output_len s)
                                   (input_read s - rd) st r'] @ ext)
               \<and> decompress_body E (buf input) cs st s = Continue (grown cs st s c' w rd h)
               \<and> output_len (grown cs st s c' w rd h) = 2 * output_len s
               \<and> length (output_obj (grown cs st s c' w rd h)) = 2 * length (output_obj s)
               \<and> take (output_pos (grown cs st s c' w rd h))
                     (output_obj (grown cs st s c' w rd h))
                   = take (output_pos s) (output_obj s) @ w
               \<and> log (grown cs st s c' w rd h)
                   = log s @ [Ev_decompress (output_written s) (input_read s) st
                                (Inr (w, rd, h)),
                              Ev_PyBytes_Resize (2 * output_len s)]"
    if call: "LZ4F_decompress E (ctx s) (output_written s)
               (take (input_read s) (drop (input_pos s) (buf input))) st = Inr (c', w, rd, h)"
      and h: "h \<noteq> 0" and more: "rd < input_remaining s"
      and mem: "PyBytes_ok E (2 * output_len s)"
    for c' w rd h
  proof -
    from mem have ok: "PyBytes_ok E ((output_len s * 2) mod 2 ^ 64)" by (simp only: d)
    have body: "decompress_body E (buf input) cs st s = Continue (grown cs st s c' w rd h)"
      using decompress_body_grow [OF call h more _ ok] u by simp
    from contract_decompress [OF c call] have w: "length w \<le> output_written s" by simp
    from more have rd: "rd \<le> input_remaining s" by simp
    note g = grown_facts [OF inv w rd, of cs st c' h]
    have lg: "log (grown cs st s c' w rd h)
           = log s @ [Ev_decompress (output_written s) (input_read s) st (Inr (w, rd, h)),
                      Ev_PyBytes_Resize (2 * output_len s)]"
      unfolding grown_log d using u by simp
    have next_call: "output_written (grown cs st s c' w rd h)
                     = output_written s - length w + output_len s"
      "input_read (grown cs st s c' w rd h) = input_read s - rd"
      using ow ir by (simp_all add: grown_def)
    have r': "reaches (decompress_body E (buf input) cs st) s0 (grown cs st s c' w rd h)"
      using r body by (rule reaches_step)
    from lz4framed_decompress_log [OF c b r'] f obtain r' ext where
      "l = log (grown cs st s c' w rd h)
               @ Ev_decompress (output_written (grown cs st s c' w rd h))
                   (input_read (grown cs st s c' w rd h)) st r' # ext"
      by auto
    then have "l = log s @ [Ev_decompress (output_written s) (input_read s) st
                                   (Inr (w, rd, h)),
                                 Ev_PyBytes_Resize (2 * output_len s),
                                 Ev_decompress (output_written s - length w + output_len s)
                                   (input_read s - rd) st r'] @ ext"
      unfolding lg next_call by simp
    then have "\<exists>r' ext. l = log s @ [Ev_decompress (output_written s) (input_read s) st
                                   (Inr (w, rd, h)),
                                 Ev_PyBytes_Resize (2 * output_len s),
                                 Ev_decompress (output_written s - length w + output_len s)
                                   (input_read s - rd) st r'] @ ext"
      by (intro exI)
    with body g(1) g(2) g(4) lg show ?thesis by simp
  qed
  have cont: "output_len s' = 2 * output_len s
               \<and> length (output_obj s') = 2 * length (output_obj s)
               \<and> length (output_obj s) = output_len s
               \<and> (\<exists>ext. l = log s' @ ext)"
    if body: "decompress_body E (buf input) cs st s = Continue s'" for s'
  proof -
    from decompress_body_Continue [OF body] obtain c' w rd h where
      call: "LZ4F_decompress E (ctx s) (output_written s)
               (take (input_read s) (drop (input_pos s) (buf input))) st = Inr (c', w, rd, h)"
      and rd: "rd < input_remaining s"
      and s': "s' = grown cs st s c' w rd h"
      by blast
    from contract_decompress [OF c call] have w: "length w \<le> output_written s" by simp
    from rd have rd': "rd \<le> input_remaining s" by simp
    note g = grown_facts [OF inv w rd', of cs st c' h]
    have r': "reaches (decompress_body E (buf input) cs st) s0 s'"
      using r body by (rule reaches_step)
    from lz4framed_decompress_log [OF c b r'] f have "\<exists>ext. l = log s' @ ext" by auto
    with g(1) g(2) l show ?thesis unfolding s' by simp
  qed
  show ?thesis
  proof (rule exI [of _ res], rule exI [of _ l], rule exI [of _ r0], rule exI [of _ e0],
      intro conjI)
    show "lz4framed_decompress E input buffer_size = Some (res, l)" by (rule f)
    show "l = [Ev_createDecompressionContext, Ev_getFrameInfo (length (buf input)),
              Ev_PyBytes_FromStringAndSize (max (nat buffer_size) (input_remaining s0)),
              Ev_decompress (max (nat buffer_size) (input_remaining s0)) (input_remaining s0)
                False r0] @ e0"
      by (rule first)
    show "\<forall>c' w rd h.
             LZ4F_decompress E (ctx s) (output_written s)
               (take (input_read s) (drop (input_pos s) (buf input))) st
             = Inr (c', w, rd, h)
             \<and> h \<noteq> 0 \<and> rd < input_remaining s \<and> \<not> PyBytes_ok E (2 * output_len s)
             \<longrightarrow> res = Inl MemoryError
               \<and> l = log s @ [Ev_decompress (output_written s) (input_read s) st
                                (Inr (w, rd, h))]"
      by (intro allI impI, elim conjE, rule nomem)
    show "\<forall>out. res = Inr out \<longrightarrow> out = produced l"
      using lz4framed_decompress_output [OF c, of input buffer_size _ l] f by auto
    show "\<exists>c0 c1 fi rd h.
            LZ4F_createDecompressionContext E = Inr c0
          \<and> LZ4F_getFrameInfo E c0 (buf input) = Inr (c1, fi, rd, h)
          \<and> contentSize fi = 0 \<and> input_remaining s0 = length (buf input) - rd"
      by (rule hdr)
    show "output_len s0 = max (nat buffer_size) (input_remaining s0)"
      unfolding f0 by (rule refl)
    show "length (output_obj s0) = output_len s0" unfolding f0 by (rule refl)
    show "log s0 = [Ev_createDecompressionContext, Ev_getFrameInfo (length (buf input)),
                    Ev_PyBytes_FromStringAndSize (max (nat buffer_size) (input_remaining s0))]"
      unfolding f0 by (rule refl)
  next
    show "\<forall>s'. decompress_body E (buf input) cs st s = Continue s'
             \<longrightarrow> output_len s' = 2 * output_len s
               \<and> length (output_obj s') = 2 * length (output_obj s)
               \<and> length (output_obj s) = output_len s
               \<and> (\<exists>ext. l = log s' @ ext)"
      by (intro allI impI) (rule cont)
  qed (intro allI impI, elim conjE, rule grow)
qed

theorem unknown_length_buffer_witness:
  "lz4f_contract rle_lz4f
   \<and> decompress_begin rle_lz4f \<lparr>buf = [0, 3, 7, 3, 8, 0], contiguous = True\<rparr> 1
     = Inr (0, False, decompress_state0 () 6 1 5 1 5)
   \<and> reaches (decompress_body rle_lz4f [0, 3, 7, 3, 8, 0] 0 False)
        (decompress_state0 () 6 1 5 1 5) (decompress_state0 () 6 1 5 1 5)
   \<and> output_len (decompress_state0 () 6 1 5 1 5 :: unit dstate) = max (nat 1) 5
   \<and> LZ4F_decompress rle_lz4f () 5 [3, 7, 3, 8, 0] False = Inr ((), [7, 7, 7], 2, 1)
   \<and> PyBytes_ok rle_lz4f 10
   \<and> lz4framed_decompress rle_lz4f \<lparr>buf = [0, 3, 7, 3, 8, 0], contiguous = True\<rparr> 1
     = Some (Inr [7, 7, 7, 8, 8, 8],
             [Ev_createDecompressionContext, Ev_getFrameInfo 6,
              Ev_PyBytes_FromStringAndSize 5,
              Ev_decompress 5 5 False (Inr ([7, 7, 7], 2, 1)), Ev_PyBytes_Resize 10,
              Ev_decompress 7 3 False (Inr ([8, 8, 8], 3, 0)), Ev_PyBytes_Resize 6])
   \<and> decompress_body rle_lz4f [0, 3, 7, 3, 8, 0] 0 False (decompress_state0 () 6 1 5 1 5)
     = Continue (grown 0 False (decompress_state0 () 6 1 5 1 5) () [7, 7, 7] 2 1)
   \<and> output_len (grown 0 False (decompress_state0 () 6 1 5 1 5) () [7, 7, 7] 2 1) = 10
   \<and> length (output_obj (grown 0 False (decompress_state0 () 6 1 5 1 5) () [7, 7, 7] 2 1))
     = 10
   \<and> take 3 (output_obj (grown 0 False (decompress_state0 () 6 1 5 1 5) () [7, 7, 7] 2 1))
     = [7, 7, 7]
   \<and> log (grown 0 False (decompress_state0 () 6 1 5 1 5) () [7, 7, 7] 2 1)
     = [Ev_createDecompressionContext, Ev_getFrameInfo 6, Ev_PyBytes_FromStringAndSize 5,
        Ev_decompress 5 5 False (Inr ([7, 7, 7], 2, 1)), Ev_PyBytes_Resize 10]"
proof -
  let ?A = "\<lparr>buf = [0, 3, 7, 3, 8, 0], contiguous = True\<rparr>"
  let ?a = "decompress_state0 () 6 1 5 1 5 :: unit dstate"
  let ?log = "[Ev_createDecompressionContext, Ev_getFrameInfo 6,
              Ev_PyBytes_FromStringAndSize 5,
              Ev_decompress 5 5 False (Inr ([7, 7, 7], 2, 1)), Ev_PyBytes_Resize 10,
              Ev_decompress 7 3 False (Inr ([8, 8, 8], 3, 0)), Ev_PyBytes_Resize 6]"
  have b: "decompress_begin rle_lz4f ?A 1 = Inr (0, False, ?a)"
    using decompress_begin_run [of ?A 1 rle_lz4f "()" "()" _ 1 1]
    by (simp add: rle_sel begin_len_def PyBytes_ok_def PY_SSIZE_T_MAX_def MAX_macro_def
        decompress_state0_def PyBytes_FromStringAndSize_def replicate_numeral_Cons)
  have r: "reaches (decompress_body rle_lz4f (buf ?A) 0 False) ?a ?a" by (rule reaches_refl)
  have call: "LZ4F_decompress rle_lz4f (ctx ?a) (output_written ?a)
                 (take (input_read ?a) (drop (input_pos ?a) (buf ?A))) False
               = Inr ((), [7, 7, 7], 2, 1)"
    by (simp add: rle_sel decompress_state0_def replicate_numeral_Cons)
  have mem: "PyBytes_ok rle_lz4f 10" by (simp add: PyBytes_ok_def PY_SSIZE_T_MAX_def rle_sel)
  have pre: "LZ4F_decompress rle_lz4f (ctx ?a) (output_written ?a)
                 (take (input_read ?a) (drop (input_pos ?a) (buf ?A))) False
               = Inr ((), [7, 7, 7], 2, 1)
             \<and> (1::nat) \<noteq> 0 \<and> 2 < input_remaining ?a
             \<and> PyBytes_ok rle_lz4f (2 * output_len ?a)"
    using call mem by (simp add: decompress_state0_def)
  from unknown_length_buffer [OF rle_contract b refl r]
  obtain res l r0 ext0 where
    f: "lz4framed_decompress rle_lz4f ?A 1 = Some (res, l)"
    and grow: "\<forall>c' w rd h.
             LZ4F_decompress rle_lz4f (ctx ?a) (output_written ?a)
               (take (input_read ?a) (drop (input_pos ?a) (buf ?A))) False
             = Inr (c', w, rd, h)
             \<and> h \<noteq> 0 \<and> rd < input_remaining ?a \<and> PyBytes_ok rle_lz4f (2 * output_len ?a)
             \<longrightarrow> (\<exists>r' ext.
                    l = log ?a @ [Ev_decompress (output_written ?a) (input_read ?a) False
                                   (Inr (w, rd, h)),
                                 Ev_PyBytes_Resize (2 * output_len ?a),
                                 Ev_decompress (output_written ?a - length w + output_len ?a)
                                   (input_read ?a - rd) False r'] @ ext)
               \<and> decompress_body rle_lz4f (buf ?A) 0 False ?a
                   = Continue (grown 0 False ?a c' w rd h)
               \<and> output_len (grown 0 False ?a c' w rd h) = 2 * output_len ?a
               \<and> length (output_obj (grown 0 False ?a c' w rd h)) = 2 * length (output_obj ?a)
               \<and> take (output_pos (grown 0 False ?a c' w rd h))
                     (output_obj (grown 0 False ?a c' w rd h))
                   = take (output_pos ?a) (output_obj ?a) @ w
               \<and> log (grown 0 False ?a c' w rd h)
                   = log ?a @ [Ev_decompress (output_written ?a) (input_read ?a) False
                                (Inr (w, rd, h)),
                              Ev_PyBytes_Resize (2 * output_len ?a)]"
    by (elim exE conjE)
  from grow [rule_format, OF pre]
  have g: "decompress_body rle_lz4f (buf ?A) 0 False ?a
          = Continue (grown 0 False ?a () [7, 7, 7] 2 1)
        \<and> output_len (grown 0 False ?a () [7, 7, 7] 2 1) = 2 * output_len ?a
        \<and> length (output_obj (grown 0 False ?a () [7, 7, 7] 2 1)) = 2 * length (output_obj ?a)
        \<and> take (output_pos (grown 0 False ?a () [7, 7, 7] 2 1))
              (output_obj (grown 0 False ?a () [7, 7, 7] 2 1))
            = take (output_pos ?a) (output_obj ?a) @ [7, 7, 7]
        \<and> log (grown 0 False ?a () [7, 7, 7] 2 1)
            = log ?a @ [Ev_decompress (output_written ?a) (input_read ?a) False
                         (Inr ([7, 7, 7], 2, 1)),
                       Ev_PyBytes_Resize (2 * output_len ?a)]"
    by (rule conjunct2)
  from f rle_unknown_run have "res = Inr [7, 7, 7, 8, 8, 8]" and "l = ?log" by simp_all
  with f have run: "lz4framed_decompress rle_lz4f ?A 1 = Some (Inr [7, 7, 7, 8, 8, 8], ?log)"
    by simp
  have "output_pos (grown 0 False ?a () [7, 7, 7] 2 1) = 3"
    by (simp add: grown_def decompress_state0_def)
  with g run show ?thesis
    using rle_contract b r call mem
    by (simp add: decompress_state0_def PyBytes_FromStringAndSize_def)
qed

text \<open>
  C5, as the claim states it, fails: a frame that declares a content size of 1 and
  holds two bytes makes the loop enlarge the output object (after the warning), here
  from 1 byte to 2.
\<close>

theorem known_length_growth_counterexample:
  "lz4framed_decompress rle_lz4f \<lparr>buf = [1, 1, 7, 1, 8, 0], contiguous = True\<rparr> 4
     = Some (Inr [7, 8],
             [Ev_createDecompressionContext, Ev_getFrameInfo 6,
              Ev_PyBytes_FromStringAndSize 1,
              Ev_decompress 1 5 True (Inr ([7], 2, 1)), Ev_PyErr_WarnEx,
              Ev_PyBytes_Resize 2,
              Ev_decompress 1 3 True (Inr ([8], 3, 0)), Ev_PyBytes_Resize 2])"
proof -
  let ?input = "\<lparr>buf = [1, 1, 7, 1, 8, 0], contiguous = True\<rparr>"
  have b: "decompress_begin rle_lz4f ?input 4
             = Inr (1, True, decompress_state0 () 6 1 5 1 1)"
    using decompress_begin_run [of ?input 4 rle_lz4f "()" "()" _ 1 1]
    by (simp add: rle_sel begin_len_def PyBytes_ok_def PY_SSIZE_T_MAX_def
        decompress_state0_def)
  show ?thesis
    unfolding lz4framed_decompress_def b
    apply (simp add: decompress_state0_def PyBytes_FromStringAndSize_def)
    apply (subst decompress_loop.simps)
    apply (simp add: decompress_body_def rle_sel Let_def store_def PyBytes_ok_def
        PY_SSIZE_T_MAX_def PyBytes_Resize_def)
    apply (subst decompress_loop.simps)
    apply (simp add: decompress_body_def rle_sel Let_def store_def PyBytes_ok_def
        PY_SSIZE_T_MAX_def PyBytes_Resize_def)
    done
qed

text \<open>
  C5, amended. When the header declares a nonzero content size, \<open>decompress\<close> returns,
  the log it returns begins with the allocation of exactly that many bytes, and every
  call of the library in that log has \<open>stableDst\<close> set. If the first call of the library
  returns hint 0, \<open>decompress\<close> returns what that call wrote, and the only resize in the
  log is the final one, to the length written, which is no more than the declared size.
  The loop enlarges the object only in a pass in which the library reports a nonzero hint
  with input left, and then after the warning: the log of such a pass ends with the
  call, the warning and the resize to twice the size, and the returned log extends it.
\<close>

theorem known_length_allocation:
  assumes c: "lz4f_contract E"
    and b: "decompress_begin E input buffer_size = Inr (cs, st, s0)" and k: "cs \<noteq> 0"
    and r: "reaches (decompress_body E (buf input) cs st) s0 s"
  shows "\<exists>res l r0 ext0.
         lz4framed_decompress E input buffer_size = Some (res, l)
       \<and> l = [Ev_createDecompressionContext, Ev_getFrameInfo (length (buf input)),
              Ev_PyBytes_FromStringAndSize cs,
              Ev_decompress cs (input_remaining s0) True r0] @ ext0
       \<and> (\<forall>flag \<in> set (stable_flags l). flag)
       \<and> output_len s0 = cs \<and> length (output_obj s0) = cs \<and> st
       \<and> log s0 = [Ev_createDecompressionContext, Ev_getFrameInfo (length (buf input)),
                    Ev_PyBytes_FromStringAndSize cs]
       \<and> (\<forall>c' w rd.
             LZ4F_decompress E (ctx s0) (output_written s0)
               (take (input_read s0) (drop (input_pos s0) (buf input))) st
             = Inr (c', w, rd, 0)
             \<longrightarrow> res = (if PyBytes_ok E (length w) then Inr w else Inl MemoryError)
               \<and> l = log s0 @ [Ev_decompress cs (input_remaining s0) True (Inr (w, rd, 0))]
                       @ (if PyBytes_ok E (length w) then [Ev_PyBytes_Resize (length w)]
                          else [])
               \<and> length w \<le> cs
               \<and> decompress_loop E (buf input) cs st s0 = Some (Inr (finished s0 c' w rd st))
               \<and> log (finished s0 c' w rd st)
                   = log s0 @ [Ev_decompress cs (input_remaining s0) True (Inr (w, rd, 0))])
       \<and> (\<forall>s'. decompress_body E (buf input) cs st s = Continue s'
             \<longrightarrow> (\<exists>c' w rd h.
                    LZ4F_decompress E (ctx s) (output_written s)
                      (take (input_read s) (drop (input_pos s) (buf input))) st
                    = Inr (c', w, rd, h)
                  \<and> h \<noteq> 0 \<and> rd < input_remaining s
                  \<and> log s' = log s @ [Ev_decompress (output_written s) (input_read s) True
                                          (Inr (w, rd, h)),
                                        Ev_PyErr_WarnEx, Ev_PyBytes_Resize (2 * output_len s)]
                  \<and> (\<exists>ext. l = log s' @ ext)))"
proof -
  from decompress_begin_Inr [OF b] obtain c0 c1 fi rd0 h0 where
    cs: "cs = contentSize fi" and st: "st = (cs \<noteq> 0)"
    and s0: "s0 = decompress_state0 c1 (length (buf input)) rd0 (length (buf input) - rd0) h0
                  (begin_len fi buffer_size (length (buf input) - rd0))"
    by blast
  from cs k have bl: "begin_len fi buffer_size (length (buf input) - rd0) = cs"
    by (simp add: begin_len_def)
  have st': "st" using st k by simp
  have f0: "output_len s0 = cs" "length (output_obj s0) = cs"
    "log s0 = [Ev_createDecompressionContext, Ev_getFrameInfo (length (buf input)),
               Ev_PyBytes_FromStringAndSize cs]"
    "output_written s0 = cs" "input_read s0 = input_remaining s0"
    "output_remaining s0 = cs" "output_pos s0 = 0" "output_obj s0 = replicate cs 0"
    unfolding s0 bl by (simp_all add: decompress_state0_def PyBytes_FromStringAndSize_def)
  from lz4framed_decompress_log [OF c b reaches_refl] obtain res l r0 e0 where
    f: "lz4framed_decompress E input buffer_size = Some (res, l)"
    and l0: "l = log s0 @ Ev_decompress (output_written s0) (input_read s0) st r0 # e0"
    and fl: "set (stable_flags e0) \<subseteq> {st}"
    by blast
  have first_ev: "l = [Ev_createDecompressionContext, Ev_getFrameInfo (length (buf input)),
              Ev_PyBytes_FromStringAndSize cs,
              Ev_decompress cs (input_remaining s0) True r0] @ e0"
    unfolding l0 f0 using st' by simp
  have flags: "\<forall>flag \<in> set (stable_flags l). flag"
    unfolding l0 using fl st' by (auto simp add: s0 stable_flags_state0)
  have first: "res = (if PyBytes_ok E (length w) then Inr w else Inl MemoryError)
               \<and> l = log s0 @ [Ev_decompress cs (input_remaining s0) True (Inr (w, rd, 0))]
                       @ (if PyBytes_ok E (length w) then [Ev_PyBytes_Resize (length w)]
                          else [])
               \<and> length w \<le> cs
               \<and> decompress_loop E (buf input) cs st s0 = Some (Inr (finished s0 c' w rd st))
               \<and> log (finished s0 c' w rd st)
                   = log s0 @ [Ev_decompress cs (input_remaining s0) True (Inr (w, rd, 0))]"
    if call: "LZ4F_decompress E (ctx s0) (output_written s0)
               (take (input_read s0) (drop (input_pos s0) (buf input))) st = Inr (c', w, rd, 0)"
    for c' w rd
  proof -
    have lp: "decompress_loop E (buf input) cs st s0 = Some (Inr (finished s0 c' w rd st))"
      by (subst decompress_loop.simps) (simp add: decompress_body_break [OF call])
    from contract_decompress [OF c call] f0 have w: "length w \<le> cs" by simp
    have lf: "log (finished s0 c' w rd st)
                = log s0 @ [Ev_decompress cs (input_remaining s0) True (Inr (w, rd, 0))]"
      using st' by (simp add: finished_log f0)
    have ol: "output_len (finished s0 c' w rd st) = length w"
      using w by (simp add: finished_def f0)
    have ob: "PyBytes_Resize (output_obj (finished s0 c' w rd st)) (length w) = w"
      using w by (simp add: finished_def f0 PyBytes_Resize_def store_def)
    have "lz4framed_decompress E input buffer_size
            = Some (if PyBytes_ok E (length w) then Inr w else Inl MemoryError,
                    log s0 @ [Ev_decompress cs (input_remaining s0) True (Inr (w, rd, 0))]
                       @ (if PyBytes_ok E (length w) then [Ev_PyBytes_Resize (length w)]
                          else []))"
      using b lp ol ob lf by (simp add: lz4framed_decompress_def)
    with f lp lf w show ?thesis by simp
  qed
  have inv: "decompress_inv (buf input) s"
    using reaches_inv [OF c r decompress_begin_inv [OF c b]] .
  then have m: "output_len s \<le> PY_SSIZE_T_MAX" by (simp add: decompress_inv_def)
  have grow: "\<exists>c' w rd h.
                    LZ4F_decompress E (ctx s) (output_written s)
                      (take (input_read s) (drop (input_pos s) (buf input))) st
                    = Inr (c', w, rd, h)
                  \<and> h \<noteq> 0 \<and> rd < input_remaining s
                  \<and> log s' = log s @ [Ev_decompress (output_written s) (input_read s) True
                                          (Inr (w, rd, h)),
                                        Ev_PyErr_WarnEx, Ev_PyBytes_Resize (2 * output_len s)]
                  \<and> (\<exists>ext. l = log s' @ ext)"
    if body: "decompress_body E (buf input) cs st s = Continue s'" for s'
  proof -
    from decompress_body_Continue [OF body] obtain c' w rd h where
      call: "LZ4F_decompress E (ctx s) (output_written s)
               (take (input_read s) (drop (input_pos s) (buf input))) st = Inr (c', w, rd, h)"
      and h: "h \<noteq> 0" and rd: "rd < input_remaining s"
      and s': "s' = grown cs st s c' w rd h"
      by blast
    have lg: "log s' = log s @ [Ev_decompress (output_written s) (input_read s) True
                             (Inr (w, rd, h)),
                           Ev_PyErr_WarnEx, Ev_PyBytes_Resize (2 * output_len s)]"
      unfolding s' grown_log double_no_wrap [OF m] using k st' by simp
    have r': "reaches (decompress_body E (buf input) cs st) s0 s'"
      using r body by (rule reaches_step)
    from lz4framed_decompress_log [OF c b r'] f have "\<exists>ext. l = log s' @ ext" by auto
    with call h rd lg show ?thesis by blast
  qed
  show ?thesis
  proof (rule exI [of _ res], rule exI [of _ l], rule exI [of _ r0], rule exI [of _ e0],
      intro conjI)
    show "lz4framed_decompress E input buffer_size = Some (res, l)" by (rule f)
    show "l = [Ev_createDecompressionContext, Ev_getFrameInfo (length (buf input)),
              Ev_PyBytes_FromStringAndSize cs,
              Ev_decompress cs (input_remaining s0) True r0] @ e0"
      by (rule first_ev)
    show "\<forall>flag \<in> set (stable_flags l). flag" by (rule flags)
    show "output_len s0 = cs" by (rule f0)
    show "length (output_obj s0) = cs" by (rule f0)
    show st by (rule st')
    show "log s0 = [Ev_createDecompressionContext, Ev_getFrameInfo (length (buf input)),
                    Ev_PyBytes_FromStringAndSize cs]"
      by (rule f0)
    show "\<forall>s'. decompress_body E (buf input) cs st s = Continue s'
             \<longrightarrow> (\<exists>c' w rd h.
                    LZ4F_decompress E (ctx s) (output_written s)
                      (take (input_read s) (drop (input_pos s) (buf input))) st
                    = Inr (c', w, rd, h)
                  \<and> h \<noteq> 0 \<and> rd < input_remaining s
                  \<and> log s' = log s @ [Ev_decompress (output_written s) (input_read s) True
                                          (Inr (w, rd, h)),
                                        Ev_PyErr_WarnEx, Ev_PyBytes_Resize (2 * output_len s)]
                  \<and> (\<exists>ext. l = log s' @ ext))"
      by (intro allI impI) (rule grow)
  qed (intro allI impI, rule first)
qed

theorem known_length_allocation_witness:
  "lz4f_contract rle_lz4f
   \<and> decompress_begin rle_lz4f \<lparr>buf = [2, 1, 7, 1, 8, 0], contiguous = True\<rparr> 4
     = Inr (2, True, decompress_state0 () 6 1 5 1 2)
   \<and> reaches (decompress_body rle_lz4f [2, 1, 7, 1, 8, 0] 2 True)
        (decompress_state0 () 6 1 5 1 2) (decompress_state0 () 6 1 5 1 2)
   \<and> output_len (decompress_state0 () 6 1 5 1 2 :: unit dstate) = 2
   \<and> length (output_obj (decompress_state0 () 6 1 5 1 2 :: unit dstate)) = 2
   \<and> LZ4F_decompress rle_lz4f () 2 [1, 7, 1, 8, 0] True = Inr ((), [7, 8], 5, 0)
   \<and> lz4framed_decompress rle_lz4f \<lparr>buf = [2, 1, 7, 1, 8, 0], contiguous = True\<rparr> 4
     = Some (Inr [7, 8],
             [Ev_createDecompressionContext, Ev_getFrameInfo 6,
              Ev_PyBytes_FromStringAndSize 2,
              Ev_decompress 2 5 True (Inr ([7, 8], 5, 0)), Ev_PyBytes_Resize 2])
   \<and> stable_flags [Ev_createDecompressionContext, Ev_getFrameInfo 6,
              Ev_PyBytes_FromStringAndSize 2,
              Ev_decompress 2 5 True (Inr ([7, 8], 5, 0)), Ev_PyBytes_Resize 2] = [True]
   \<and> decompress_loop rle_lz4f [2, 1, 7, 1, 8, 0] 2 True (decompress_state0 () 6 1 5 1 2)
     = Some (Inr (finished (decompress_state0 () 6 1 5 1 2) () [7, 8] 5 True))
   \<and> log (finished (decompress_state0 () 6 1 5 1 2) () [7, 8] 5 True)
     = [Ev_createDecompressionContext, Ev_getFrameInfo 6, Ev_PyBytes_FromStringAndSize 2,
        Ev_decompress 2 5 True (Inr ([7, 8], 5, 0))]
   \<and> decompress_begin rle_lz4f \<lparr>buf = [1, 1, 7, 1, 8, 0], contiguous = True\<rparr> 4
     = Inr (1, True, decompress_state0 () 6 1 5 1 1)
   \<and> decompress_body rle_lz4f [1, 1, 7, 1, 8, 0] 1 True (decompress_state0 () 6 1 5 1 1)
     = Continue (grown 1 True (decompress_state0 () 6 1 5 1 1) () [7] 2 1)
   \<and> log (grown 1 True (decompress_state0 () 6 1 5 1 1) () [7] 2 1)
     = [Ev_createDecompressionContext, Ev_getFrameInfo 6, Ev_PyBytes_FromStringAndSize 1,
        Ev_decompress 1 5 True (Inr ([7], 2, 1)), Ev_PyErr_WarnEx, Ev_PyBytes_Resize 2]"
proof -
  let ?A = "\<lparr>buf = [2, 1, 7, 1, 8, 0], contiguous = True\<rparr>"
  let ?a = "decompress_state0 () 6 1 5 1 2 :: unit dstate"
  let ?B = "\<lparr>buf = [1, 1, 7, 1, 8, 0], contiguous = True\<rparr>"
  let ?b = "decompress_state0 () 6 1 5 1 1 :: unit dstate"
  let ?log = "[Ev_createDecompressionContext, Ev_getFrameInfo 6,
              Ev_PyBytes_FromStringAndSize 2,
              Ev_decompress 2 5 True (Inr ([7, 8], 5, 0)), Ev_PyBytes_Resize 2]"
  have bA: "decompress_begin rle_lz4f ?A 4 = Inr (2, True, ?a)"
    using decompress_begin_run [of ?A 4 rle_lz4f "()" "()" _ 1 1]
    by (simp add: rle_sel begin_len_def PyBytes_ok_def PY_SSIZE_T_MAX_def
        decompress_state0_def)
  have bB: "decompress_begin rle_lz4f ?B 4 = Inr (1, True, ?b)"
    using decompress_begin_run [of ?B 4 rle_lz4f "()" "()" _ 1 1]
    by (simp add: rle_sel begin_len_def PyBytes_ok_def PY_SSIZE_T_MAX_def
        decompress_state0_def)
  have rA: "reaches (decompress_body rle_lz4f (buf ?A) 2 True) ?a ?a" by (rule reaches_refl)
  have rB: "reaches (decompress_body rle_lz4f (buf ?B) 1 True) ?b ?b" by (rule reaches_refl)
  have callA: "LZ4F_decompress rle_lz4f (ctx ?a) (output_written ?a)
                 (take (input_read ?a) (drop (input_pos ?a) (buf ?A))) True
               = Inr ((), [7, 8], 5, 0)"
    by (simp add: rle_sel decompress_state0_def)
  have callB: "LZ4F_decompress rle_lz4f (ctx ?b) (output_written ?b)
                 (take (input_read ?b) (drop (input_pos ?b) (buf ?B))) True
               = Inr ((), [7], 2, 1)"
    by (simp add: rle_sel decompress_state0_def)
  have bodyB: "decompress_body rle_lz4f (buf ?B) 1 True ?b = Continue (grown 1 True ?b () [7] 2 1)"
    by (rule decompress_body_grow [OF callB])
      (simp_all add: rle_sel decompress_state0_def PyBytes_ok_def PY_SSIZE_T_MAX_def)
  have two: "(2::nat) \<noteq> 0" and one: "(1::nat) \<noteq> 0" by simp_all
  from known_length_allocation [OF rle_contract bA two rA]
  obtain res l r0 ext0 where
    f: "lz4framed_decompress rle_lz4f ?A 4 = Some (res, l)"
    and fl: "\<forall>flag \<in> set (stable_flags l). flag"
    and first: "\<forall>c' w rd.
             LZ4F_decompress rle_lz4f (ctx ?a) (output_written ?a)
               (take (input_read ?a) (drop (input_pos ?a) (buf ?A))) True
             = Inr (c', w, rd, 0)
             \<longrightarrow> res = (if PyBytes_ok rle_lz4f (length w) then Inr w else Inl MemoryError)
               \<and> l = log ?a @ [Ev_decompress 2 (input_remaining ?a) True (Inr (w, rd, 0))]
                       @ (if PyBytes_ok rle_lz4f (length w) then [Ev_PyBytes_Resize (length w)]
                          else [])
               \<and> length w \<le> 2
               \<and> decompress_loop rle_lz4f (buf ?A) 2 True ?a
                   = Some (Inr (finished ?a c' w rd True))
               \<and> log (finished ?a c' w rd True)
                   = log ?a @ [Ev_decompress 2 (input_remaining ?a) True (Inr (w, rd, 0))]"
    by (elim exE conjE)
  note first' = first [rule_format, OF callA]
  from first' have A': "decompress_loop rle_lz4f (buf ?A) 2 True ?a
                           = Some (Inr (finished ?a () [7, 8] 5 True))
                         \<and> log (finished ?a () [7, 8] 5 True)
                           = log ?a @ [Ev_decompress 2 (input_remaining ?a) True
                                        (Inr ([7, 8], 5, 0))]"
    by (elim conjE, intro conjI)
  from f rle_known_run have "res = Inr [7, 8]" and "l = ?log" by simp_all
  with f have run: "lz4framed_decompress rle_lz4f ?A 4 = Some (Inr [7, 8], ?log)"
    by simp
  have flags: "stable_flags ?log = [True]" by simp
  from known_length_allocation [OF rle_contract bB one rB]
  obtain resB lB r0B ext0B where
    growB: "\<forall>s'. decompress_body rle_lz4f (buf ?B) 1 True ?b = Continue s'
             \<longrightarrow> (\<exists>c' w rd h.
                    LZ4F_decompress rle_lz4f (ctx ?b) (output_written ?b)
                      (take (input_read ?b) (drop (input_pos ?b) (buf ?B))) True
                    = Inr (c', w, rd, h)
                  \<and> h \<noteq> 0 \<and> rd < input_remaining ?b
                  \<and> log s' = log ?b @ [Ev_decompress (output_written ?b) (input_read ?b) True
                                          (Inr (w, rd, h)),
                                        Ev_PyErr_WarnEx, Ev_PyBytes_Resize (2 * output_len ?b)]
                  \<and> (\<exists>ext. lB = log s' @ ext))"
    by (elim exE conjE)
  from growB [rule_format, OF bodyB] obtain c' w rd h where
    cB: "LZ4F_decompress rle_lz4f (ctx ?b) (output_written ?b)
           (take (input_read ?b) (drop (input_pos ?b) (buf ?B))) True = Inr (c', w, rd, h)"
    and lB: "log (grown 1 True ?b () [7] 2 1)
               = log ?b @ [Ev_decompress (output_written ?b) (input_read ?b) True
                             (Inr (w, rd, h)),
                           Ev_PyErr_WarnEx, Ev_PyBytes_Resize (2 * output_len ?b)]"
    by (elim exE conjE)
  from cB callB have "w = [7]" "rd = 2" "h = 1" by simp_all
  with lB have B': "log (grown 1 True ?b () [7] 2 1)
      = log ?b @ [Ev_decompress (output_written ?b) (input_read ?b) True (Inr ([7], 2, 1)),
                  Ev_PyErr_WarnEx, Ev_PyBytes_Resize (2 * output_len ?b)]"
    by simp
  from run flags A' B' rle_contract bA bB rA bodyB callA show ?thesis
    by (simp add: state0_facts decompress_state0_def PyBytes_FromStringAndSize_def)
qed

section \<open>Chunked decompression\<close>

lemma log_append [simp]:
  "produced (l @ m) = produced l @ produced m"
  "consumed (l @ m) = consumed l + consumed m"
  "hints (l @ m) = hints l @ hints m"
  "capacities (l @ m) = capacities l @ capacities m"
  "sources (l @ m) = sources l @ sources m"
  by (simp_all add: produced_def consumed_def hints_def capacities_def sources_def)

lemma log_single [simp]:
  "produced [e] = written_of e" "consumed [e] = consumed_of e"
  "hints [e] = hint_of e" "capacities [e] = capacity_of e"
  "sources [e] = source_of e"
  "produced [] = []" "consumed [] = 0" "hints [] = []" "capacities [] = []" "sources [] = []"
  by (simp_all add: produced_def consumed_def hints_def capacities_def sources_def)























section \<open>The chunk length argument\<close>

text \<open>
  C8. \<open>decompress_update\<close> checks \<open>chunk_len <= 0\<close> on a variable of type \<open>size_t\<close>. A
  zero argument is rejected with the \<open>ValueError\<close> "chunk_len invalid". A negative
  argument is not: stored through the \<open>size_t\<close> variable by the format unit \<open>i\<close>, \<open>-1\<close> is
  4294967295, the check passes, and the call allocates a chunk of that size and decodes
  into it. (\<open>buffer_size\<close> of \<open>decompress\<close>, declared \<open>int\<close>, is checked with the same
  comparison and does reject negative values.)
\<close>

theorem negative_chunk_len_accepted:
  "parse_chunk_len (Some (- 1)) = 4294967295
   \<and> lz4framed_decompress_update rle_lz4f (DecompressionCapsule ())
       \<lparr>buf = [1, 7, 0], contiguous = True\<rparr> (Some (- 1))
     = Some (Inr ([PyBytes [7], PyLong 0], ()),
             [Ev_PyBytes_FromStringAndSize 4294967295,
              Ev_decompress 4294967295 3 False (Inr ([7], 3, 0)),
              Ev_PyBytes_Resize 1])
   \<and> lz4framed_decompress_update rle_lz4f (DecompressionCapsule ())
       \<lparr>buf = [1, 7, 0], contiguous = True\<rparr> (Some 0)
     = Some (Inl (ValueError chunk_len_invalid), [])"
proof -
  have pc: "parse_chunk_len (Some (- 1)) = 4294967295" "parse_chunk_len (Some 0) = 0"
    by (simp_all add: parse_chunk_len_def)
  have neg: "lz4framed_decompress_update rle_lz4f (DecompressionCapsule ())
       \<lparr>buf = [1, 7, 0], contiguous = True\<rparr> (Some (- 1))
     = Some (Inr ([PyBytes [7], PyLong 0], ()),
             [Ev_PyBytes_FromStringAndSize 4294967295,
              Ev_decompress 4294967295 3 False (Inr ([7], 3, 0)),
              Ev_PyBytes_Resize 1])"
    unfolding lz4framed_decompress_update_def pc
    apply (simp add: PyBuffer_IsContiguous_def len_def PyBytes_ok_def PY_SSIZE_T_MAX_def
        rle_sel decompress_update_begin_def PyBytes_FromStringAndSize_def)
    apply (subst decompress_update_loop.simps)
    apply (simp add: decompress_update_body_def rle_sel Let_def store_def)
    apply (subst decompress_update_loop.simps)
    apply (simp add: decompress_update_end_def PyBytes_ok_def PY_SSIZE_T_MAX_def rle_sel
        PyBytes_Resize_def)
    done
  have zero: "lz4framed_decompress_update rle_lz4f (DecompressionCapsule ())
       \<lparr>buf = [1, 7, 0], contiguous = True\<rparr> (Some 0)
     = Some (Inl (ValueError chunk_len_invalid), [])"
    unfolding lz4framed_decompress_update_def pc
    by (simp add: PyBuffer_IsContiguous_def len_def)
  from pc neg zero show ?thesis by (intro conjI)
qed

section \<open>Round trip\<close>

text \<open>
  C1. For a non-empty buffer and valid preferences (a valid block size identifier, a
  level not above the maximum, any linkage and checksum flags), decompressing what
  \<open>compress\<close> returned gives the buffer back, whatever \<open>buffer_size\<close> is. The LZ4
  library is outside the extension, so its part is a hypothesis, stated on the calls the
  extension makes: the bound and the compression succeed (and the host has the memory);
  the header of the frame parses and reports the content size that the preferences
  carried; decoding the rest of the frame into a destination of the content size, with
  a stable destination, writes the original bytes and returns hint 0. The theorem is
  then about the extension: it records the input length as content size, sizes the
  output from the header, passes the whole remaining input, and returns what was
  written.
\<close>

theorem compress_decompress_roundtrip:
  assumes cont: "contiguous input" and ne: "buf input \<noteq> []"
    and bid: "valid_lz4f_block_size_id block_id"
    and lvl: "level \<le> LZ4_COMPRESSION_MAX E"
    and bs: "0 < buffer_size"
    and prefs: "prefs = compress_prefs (length (buf input)) block_id linked checksum level
                          block_checksum"
    and bound: "LZ4F_compressFrameBound E (length (buf input)) prefs = Inr bnd"
    and mem1: "PyBytes_ok E bnd"
    and comp: "LZ4F_compressFrame E bnd (buf input) prefs = Inr frame"
    and mem2: "PyBytes_ok E (length frame)" and fne: "frame \<noteq> []"
    and create: "LZ4F_createDecompressionContext E = Inr c0"
    and info: "LZ4F_getFrameInfo E c0 frame = Inr (c1, fi, rd, h)"
    and size: "contentSize fi = contentSize (frameInfo prefs)"
    and dec: "LZ4F_decompress E c1 (length (buf input)) (drop rd frame) True
                = Inr (c2, buf input, k, 0)"
    and mem3: "PyBytes_ok E (length (buf input))"
  shows "\<exists>l l'. lz4framed_compress E input block_id linked checksum level block_checksum
                  = (Inr frame, l)
              \<and> lz4framed_decompress E \<lparr>buf = frame, contiguous = True\<rparr> buffer_size
                  = Some (Inr (buf input), l')"
proof -
  let ?n = "length (buf input)"
  let ?b = "\<lparr>buf = frame, contiguous = True\<rparr>"
  from ne have n0: "?n \<noteq> 0" by simp
  have c: "\<exists>l. lz4framed_compress E input block_id linked checksum level block_checksum
                = (Inr frame, l)"
    using cont ne bid lvl bound mem1 comp mem2 unfolding prefs
    by (simp add: lz4framed_compress_def PyBuffer_IsContiguous_def len_def Let_def)
  have cs: "contentSize fi = ?n" unfolding size prefs by (simp add: compress_prefs_def)
  have bl: "begin_len fi buffer_size (length frame - rd) = ?n"
    using cs n0 by (simp add: begin_len_def)
  let ?s0 = "decompress_state0 c1 (length frame) rd (length frame - rd) h ?n"
  have b: "decompress_begin E ?b buffer_size = Inr (?n, True, ?s0)"
    using decompress_begin_run [of ?b buffer_size E c0 c1 fi rd h] fne bs create info mem3 ne
    by (simp add: bl cs)
  have call: "LZ4F_decompress E (ctx ?s0) (output_written ?s0)
                (take (input_read ?s0) (drop (input_pos ?s0) frame)) True
              = Inr (c2, buf input, k, 0)"
    using dec by (simp add: decompress_state0_def)
  have loop: "decompress_loop E frame ?n True ?s0
                = Some (Inr (finished ?s0 c2 (buf input) k True))"
    by (subst decompress_loop.simps) (simp add: decompress_body_break [OF call])
  have ol: "output_len (finished ?s0 c2 (buf input) k True) = ?n"
    by (simp add: finished_def decompress_state0_def)
  have out: "PyBytes_Resize (output_obj (finished ?s0 c2 (buf input) k True)) ?n = buf input"
    by (simp add: finished_def decompress_state0_def PyBytes_Resize_def store_def
        PyBytes_FromStringAndSize_def)
  have d: "\<exists>l'. lz4framed_decompress E ?b buffer_size = Some (Inr (buf input), l')"
    using b loop mem3 by (simp add: lz4framed_decompress_def ol out)
  from c d show ?thesis by blast
qed

theorem compress_decompress_roundtrip_witness:
  "contiguous \<lparr>buf = [7, 8], contiguous = True\<rparr>
   \<and> buf \<lparr>buf = [7, 8], contiguous = True\<rparr> \<noteq> []
   \<and> valid_lz4f_block_size_id 0 \<and> 0 \<le> LZ4_COMPRESSION_MAX rle_lz4f
   \<and> LZ4F_compressFrameBound rle_lz4f 2 (compress_prefs 2 0 1 0 0 0) = Inr 6
   \<and> LZ4F_compressFrame rle_lz4f 6 [7, 8] (compress_prefs 2 0 1 0 0 0)
       = Inr [2, 1, 7, 1, 8, 0]
   \<and> LZ4F_decompress rle_lz4f () 2 [1, 7, 1, 8, 0] True = Inr ((), [7, 8], 5, 0)
   \<and> fst (lz4framed_compress rle_lz4f \<lparr>buf = [7, 8], contiguous = True\<rparr> 0 1 0 0 0)
       = Inr [2, 1, 7, 1, 8, 0]
   \<and> map_option fst
         (lz4framed_decompress rle_lz4f \<lparr>buf = [2, 1, 7, 1, 8, 0], contiguous = True\<rparr> 1024)
       = Some (Inr [7, 8])"
proof -
  let ?input = "\<lparr>buf = [7, 8], contiguous = True\<rparr>"
  let ?prefs = "compress_prefs 2 0 1 0 0 0"
  let ?fi = "\<lparr>blockSizeID = 0, blockMode = LZ4F_blockLinked,
              contentChecksumFlag = LZ4F_noContentChecksum, contentSize = 2,
              blockChecksumFlag = LZ4F_noBlockChecksum\<rparr>"
  have cont: "contiguous ?input" and ne: "buf ?input \<noteq> []" by simp_all
  have bid: "valid_lz4f_block_size_id 0"
    by (simp add: valid_lz4f_block_size_id_def LZ4F_default_def)
  have lvl: "0 \<le> LZ4_COMPRESSION_MAX rle_lz4f"
    by (simp add: LZ4_COMPRESSION_MAX_def rle_lz4f_def)
  have bs: "(0::int) < 1024" by simp
  have prefs: "?prefs = compress_prefs (length (buf ?input)) 0 1 0 0 0"
    by (simp add: numeral_2_eq_2)
  have bound: "LZ4F_compressFrameBound rle_lz4f (length (buf ?input)) ?prefs = Inr 6"
    by (simp add: rle_lz4f_def)
  have mem: "PyBytes_ok rle_lz4f n" if "n \<le> 6" for n
    using that by (simp add: PyBytes_ok_def PY_SSIZE_T_MAX_def rle_sel)
  have comp: "LZ4F_compressFrame rle_lz4f 6 (buf ?input) ?prefs = Inr [2, 1, 7, 1, 8, 0]"
    by (simp add: rle_lz4f_def rle_encode_def compress_prefs_def prefs_defaults_def)
  have create: "LZ4F_createDecompressionContext rle_lz4f = Inr ()" by (simp add: rle_sel)
  have info: "LZ4F_getFrameInfo rle_lz4f () [2, 1, 7, 1, 8, 0] = Inr ((), ?fi, 1, 1)"
    by (simp add: rle_sel)
  have size: "contentSize ?fi = contentSize (frameInfo ?prefs)"
    by (simp add: compress_prefs_def prefs_defaults_def)
  have dec: "LZ4F_decompress rle_lz4f () (length (buf ?input)) (drop 1 [2, 1, 7, 1, 8, 0]) True
               = Inr ((), buf ?input, 5, 0)"
    by (simp add: rle_sel)
  from compress_decompress_roundtrip [OF cont ne bid lvl bs prefs bound mem comp mem _
      create info size dec mem]
  obtain l l' where
    "lz4framed_compress rle_lz4f ?input 0 1 0 0 0 = (Inr [2, 1, 7, 1, 8, 0], l)"
    "lz4framed_decompress rle_lz4f \<lparr>buf = [2, 1, 7, 1, 8, 0], contiguous = True\<rparr> 1024
       = Some (Inr (buf ?input), l')"
    by auto
  with cont ne bid lvl bound comp dec show ?thesis by (simp add: numeral_2_eq_2)
qed

end
